theory Spec2Isabelle
  imports Main
begin

section \<open>Python string helpers used by dcj.py\<close>

text \<open>
  Tokens, lines, keys and values are Python \<open>str\<close> objects; they are modelled as HOL
  strings (character lists). The helpers below are the \<open>str\<close> and list operations the
  program calls.
\<close>

definition startswith :: "string \<Rightarrow> string \<Rightarrow> bool" where
  "startswith s p = (take (length p) s = p)"

text \<open>
  \<open>s.split(sep, 1)\<close> for a one-character separator: a list of one element when the
  separator does not occur, of two elements (the text before and the text after the first
  occurrence) when it does.
\<close>

definition split1 :: "char \<Rightarrow> string \<Rightarrow> string list" where
  "split1 sep s =
     (if sep \<in> set s
      then [takeWhile (\<lambda>c. c \<noteq> sep) s, drop 1 (dropWhile (\<lambda>c. c \<noteq> sep) s)]
      else [s])"

text \<open>List indexing \<open>xs[i]\<close> for \<open>i \<ge> 0\<close>; \<open>None\<close> stands for Python's IndexError.\<close>

definition index :: "'a list \<Rightarrow> nat \<Rightarrow> 'a option" where
  "index xs i = (if i < length xs then Some (xs ! i) else None)"

section \<open>Exceptions\<close>

datatype exn =
    SystemExit string
  | RuntimeError string
  | IndexError
  | ValueError string
  | OSError string
  | TemplateError string

section \<open>ArgRewriter\<close>

record CustomArgs =
  yml_file :: "string option"
  env_file :: "string option"
  dump :: bool

definition CustomArgs_init :: CustomArgs where
  "CustomArgs_init = \<lparr>yml_file = None, env_file = None, dump = False\<rparr>"

text \<open>
  The \<open>while i < len(self.rewritten)\<close> loop of \<open>ArgRewriter.process\<close>. The first
  argument is the part of the token list from the cursor \<open>i\<close> on, the second the list
  \<open>out\<close>, the third \<open>self.custom\<close>. The test \<open>i + 1 >= len(self.rewritten)\<close> holds exactly
  when nothing follows the current token; \<open>i += 2\<close> continues after the following token.
\<close>

fun process_loop :: "string list \<Rightarrow> string list \<Rightarrow> CustomArgs \<Rightarrow> exn + (string list \<times> CustomArgs)" where
  "process_loop [] out custom = Inr (out, custom)"
| "process_loop (tok # rest) out custom =
     (if tok = ''--yml-file'' \<or> startswith tok ''--yml-file='' then
        (if tok = ''--yml-file'' then
           (case rest of
              [] \<Rightarrow> Inl (SystemExit ''--yml-file requires a value'')
            | val # rest' \<Rightarrow>
                process_loop rest' (out @ [''-f'', val]) (custom\<lparr>yml_file := Some val\<rparr>))
         else
           (case index (split1 (CHR ''='') tok) 1 of
              None \<Rightarrow> Inl IndexError
            | Some val \<Rightarrow>
                process_loop rest (out @ [''-f'', val]) (custom\<lparr>yml_file := Some val\<rparr>)))
      else if tok = ''--env-file'' \<or> startswith tok ''--env-file='' then
        (if tok = ''--env-file'' then
           (case rest of
              [] \<Rightarrow> Inl (SystemExit ''--env-file requires a value'')
            | val # rest' \<Rightarrow>
                process_loop rest' (out @ [''--env-file'', val]) (custom\<lparr>env_file := Some val\<rparr>))
         else
           (case index (split1 (CHR ''='') tok) 1 of
              None \<Rightarrow> Inl IndexError
            | Some val \<Rightarrow>
                process_loop rest (out @ [''--env-file'', val]) (custom\<lparr>env_file := Some val\<rparr>)))
      else if tok = ''--dump'' then
        process_loop rest out (custom\<lparr>dump := True\<rparr>)
      else
        process_loop rest (out @ [tok]) custom)"

text \<open>
  \<open>ArgRewriter(argv).process()\<close>: the result is the pair of \<open>self.rewritten\<close> and
  \<open>self.custom\<close> after the call, or the exception raised.
\<close>

definition process :: "string list \<Rightarrow> exn + (string list \<times> CustomArgs)" where
  "process argv = process_loop argv [] CustomArgs_init"

subsection \<open>The rewriter with provenance\<close>

text \<open>
  To speak about which output tokens were copied from the input and which were injected
  as a replacement, the same loop is run with every element of \<open>out\<close> tagged by its
  origin: \<open>out.append(tok)\<close> adds a copied token, \<open>out.extend([...])\<close> adds injected ones.
  Lemma \<open>process_marked_erase\<close> shows that dropping the tags gives \<open>process\<close> back.
\<close>

datatype origin = Copied | Injected

fun process_loop_marked ::
  "string list \<Rightarrow> (string \<times> origin) list \<Rightarrow> CustomArgs \<Rightarrow> exn + ((string \<times> origin) list \<times> CustomArgs)" where
  "process_loop_marked [] out custom = Inr (out, custom)"
| "process_loop_marked (tok # rest) out custom =
     (if tok = ''--yml-file'' \<or> startswith tok ''--yml-file='' then
        (if tok = ''--yml-file'' then
           (case rest of
              [] \<Rightarrow> Inl (SystemExit ''--yml-file requires a value'')
            | val # rest' \<Rightarrow>
                process_loop_marked rest' (out @ [(''-f'', Injected), (val, Injected)])
                  (custom\<lparr>yml_file := Some val\<rparr>))
         else
           (case index (split1 (CHR ''='') tok) 1 of
              None \<Rightarrow> Inl IndexError
            | Some val \<Rightarrow>
                process_loop_marked rest (out @ [(''-f'', Injected), (val, Injected)])
                  (custom\<lparr>yml_file := Some val\<rparr>)))
      else if tok = ''--env-file'' \<or> startswith tok ''--env-file='' then
        (if tok = ''--env-file'' then
           (case rest of
              [] \<Rightarrow> Inl (SystemExit ''--env-file requires a value'')
            | val # rest' \<Rightarrow>
                process_loop_marked rest' (out @ [(''--env-file'', Injected), (val, Injected)])
                  (custom\<lparr>env_file := Some val\<rparr>))
         else
           (case index (split1 (CHR ''='') tok) 1 of
              None \<Rightarrow> Inl IndexError
            | Some val \<Rightarrow>
                process_loop_marked rest (out @ [(''--env-file'', Injected), (val, Injected)])
                  (custom\<lparr>env_file := Some val\<rparr>)))
      else if tok = ''--dump'' then
        process_loop_marked rest out (custom\<lparr>dump := True\<rparr>)
      else
        process_loop_marked rest (out @ [(tok, Copied)]) custom)"

definition process_marked :: "string list \<Rightarrow> exn + ((string \<times> origin) list \<times> CustomArgs)" where
  "process_marked argv = process_loop_marked argv [] CustomArgs_init"

definition copied_tokens :: "(string \<times> origin) list \<Rightarrow> string list" where
  "copied_tokens m = map fst (filter (\<lambda>e. snd e = Copied) m)"

definition injected_tokens :: "(string \<times> origin) list \<Rightarrow> string list" where
  "injected_tokens m = map fst (filter (\<lambda>e. snd e = Injected) m)"

subsection \<open>The command-line grammar as the specification words it\<close>

text \<open>
  The definitions of this subsection follow the specification's table of flags, not the
  code: a custom flag is the exact token \<open>--yml-file\<close>, \<open>--env-file\<close> or \<open>--dump\<close>, or a
  token of the form \<open>--yml-file=X\<close> or \<open>--env-file=X\<close>; the two value-taking flags in their
  exact form consume the token that follows.
\<close>

definition is_eq_form :: "string \<Rightarrow> bool" where
  "is_eq_form tok = (startswith tok ''--yml-file='' \<or> startswith tok ''--env-file='')"

definition is_custom :: "string \<Rightarrow> bool" where
  "is_custom tok =
     (tok = ''--yml-file'' \<or> tok = ''--env-file'' \<or> tok = ''--dump'' \<or> is_eq_form tok)"

definition takes_value :: "string \<Rightarrow> bool" where
  "takes_value tok = (tok = ''--yml-file'' \<or> tok = ''--env-file'')"

text \<open>The text after the first \<open>=\<close> of a token.\<close>

definition eq_value :: "string \<Rightarrow> string" where
  "eq_value tok = drop 1 (dropWhile (\<lambda>c. c \<noteq> CHR ''='') tok)"

text \<open>The input with all custom-flag tokens and their consumed values removed.\<close>

fun strip_custom :: "string list \<Rightarrow> string list" where
  "strip_custom [] = []"
| "strip_custom [tok] = (if is_custom tok then [] else [tok])"
| "strip_custom (tok # v # rest) =
     (if takes_value tok then strip_custom rest
      else if is_custom tok then strip_custom (v # rest)
      else tok # strip_custom (v # rest))"

text \<open>
  The occurrences of the two value-taking flags in a token list, left to right, each
  with its value, and the tokens that replace an occurrence.
\<close>

datatype flag = YmlFile | EnvFile

fun flag_name :: "flag \<Rightarrow> string" where
  "flag_name YmlFile = ''--yml-file''"
| "flag_name EnvFile = ''--env-file''"

fun replacement :: "flag \<times> string \<Rightarrow> string list" where
  "replacement (YmlFile, v) = [''-f'', v]"
| "replacement (EnvFile, v) = [''--env-file'', v]"

definition eq_occurrence :: "string \<Rightarrow> (flag \<times> string) list" where
  "eq_occurrence tok =
     (if startswith tok ''--yml-file='' then [(YmlFile, eq_value tok)]
      else if startswith tok ''--env-file='' then [(EnvFile, eq_value tok)]
      else [])"

fun occurrences :: "string list \<Rightarrow> (flag \<times> string) list" where
  "occurrences [] = []"
| "occurrences [tok] = eq_occurrence tok"
| "occurrences (tok # v # rest) =
     (if tok = ''--yml-file'' then (YmlFile, v) # occurrences rest
      else if tok = ''--env-file'' then (EnvFile, v) # occurrences rest
      else eq_occurrence tok @ occurrences (v # rest))"

definition last_value :: "flag \<Rightarrow> (flag \<times> string) list \<Rightarrow> string option" where
  "last_value f occs =
     (case filter (\<lambda>occ. fst occ = f) occs of
        [] \<Rightarrow> None
      | vs \<Rightarrow> Some (snd (last vs)))"

text \<open>One occurrence of a value-taking flag, in its two-token or its \<open>=\<close> form.\<close>

definition is_occurrence :: "flag \<times> string \<Rightarrow> string list \<Rightarrow> bool" where
  "is_occurrence occ toks =
     (toks = [flag_name (fst occ), snd occ] \<or> toks = [flag_name (fst occ) @ ''='' @ snd occ])"

text \<open>
  Two custom-flag states in sequence: a later value overrides an earlier one, the dump
  flag stays set once set.
\<close>

definition merge_custom :: "CustomArgs \<Rightarrow> CustomArgs \<Rightarrow> CustomArgs" where
  "merge_custom a b =
     \<lparr>yml_file = (case yml_file b of None \<Rightarrow> yml_file a | Some v \<Rightarrow> Some v),
      env_file = (case env_file b of None \<Rightarrow> env_file a | Some v \<Rightarrow> Some v),
      dump = (dump a \<or> dump b)\<rparr>"

section \<open>The process and its surroundings\<close>

text \<open>
  What the program reads and changes: \<open>os.environ\<close>, the regular files (each with its
  decoded text; for the env file the decoder \<open>utf-8-sig\<close> has already dropped a leading
  byte-order mark), the directories, what was printed to standard output and standard
  error (one element for every \<open>print\<close> call, without the line terminator), and the
  commands run with \<open>subprocess.run\<close>. Paths are the strings the program uses. A failure
  to open or decode the env file is not modelled, and neither is what the child process
  does to the files.
\<close>

record world =
  environ :: "string \<rightharpoonup> string"
  files :: "string \<rightharpoonup> string"
  dirs :: "string set"
  stdout :: "string list"
  stderr :: "string list"
  spawned :: "string list list"

definition print_stdout :: "string \<Rightarrow> world \<Rightarrow> world" where
  "print_stdout s w = w\<lparr>stdout := stdout w @ [s]\<rparr>"

definition print_stderr :: "string \<Rightarrow> world \<Rightarrow> world" where
  "print_stderr s w = w\<lparr>stderr := stderr w @ [s]\<rparr>"

section \<open>The .env loader\<close>

subsection \<open>Characters and string methods\<close>

text \<open>
  A character of the model is a code point below 256, and the three definitions below
  are Python's \<open>str.isspace\<close>, \<open>str.isalnum\<close> and \<open>str.lower\<close> on those code points.
  White space: the tab to the carriage return, the separators \<open>0x1C\<close> to \<open>0x1F\<close>, the
  space, the next-line character \<open>0x85\<close> and the no-break space \<open>0xA0\<close>. Alphanumeric: the
  ASCII digits and letters, the ordinal indicators \<open>0xAA\<close> and \<open>0xBA\<close>, the superscript
  digits \<open>0xB2\<close>, \<open>0xB3\<close> and \<open>0xB9\<close>, the micro sign \<open>0xB5\<close>, the fractions \<open>0xBC\<close> to
  \<open>0xBE\<close>, and the letters \<open>0xC0\<close> to \<open>0xFF\<close> but the signs \<open>0xD7\<close> and \<open>0xF7\<close>. Text with
  code points from 256 on is outside the model.
\<close>

definition isspace :: "char \<Rightarrow> bool" where
  "isspace c =
     (let n = (of_char c :: nat)
      in (9 \<le> n \<and> n \<le> 13) \<or> (28 \<le> n \<and> n \<le> 32) \<or> n = 133 \<or> n = 160)"

definition isalnum :: "char \<Rightarrow> bool" where
  "isalnum c =
     (let n = (of_char c :: nat)
      in (48 \<le> n \<and> n \<le> 57) \<or> (65 \<le> n \<and> n \<le> 90) \<or> (97 \<le> n \<and> n \<le> 122) \<or>
         n = 170 \<or> n = 178 \<or> n = 179 \<or> n = 181 \<or> n = 185 \<or> n = 186 \<or>
         (188 \<le> n \<and> n \<le> 190) \<or> (192 \<le> n \<and> n \<le> 214) \<or> (216 \<le> n \<and> n \<le> 246) \<or>
         (248 \<le> n \<and> n \<le> 255))"

definition lower_char :: "char \<Rightarrow> char" where
  "lower_char c =
     (let n = (of_char c :: nat)
      in if (65 \<le> n \<and> n \<le> 90) \<or> (192 \<le> n \<and> n \<le> 214) \<or> (216 \<le> n \<and> n \<le> 222)
         then char_of (n + 32) else c)"

definition lower :: "string \<Rightarrow> string" where
  "lower s = map lower_char s"

definition lstrip :: "string \<Rightarrow> string" where
  "lstrip s = dropWhile isspace s"

definition rstrip :: "string \<Rightarrow> string" where
  "rstrip s = rev (dropWhile isspace (rev s))"

definition strip :: "string \<Rightarrow> string" where
  "strip s = lstrip (rstrip s)"

definition endswith :: "string \<Rightarrow> string \<Rightarrow> bool" where
  "endswith s p = startswith (rev s) (rev p)"

text \<open>The characters the loader names.\<close>

abbreviation (input) squote :: char where "squote \<equiv> CHR 0x27"
abbreviation (input) dquote :: char where "dquote \<equiv> CHR 0x22"
abbreviation (input) backslash :: char where "backslash \<equiv> CHR 0x5C"
abbreviation (input) newline :: char where "newline \<equiv> CHR 0x0A"
abbreviation (input) tab :: char where "tab \<equiv> CHR 0x09"
abbreviation (input) carriage_return :: char where "carriage_return \<equiv> CHR 0x0D"
abbreviation (input) nul :: char where "nul \<equiv> CHR 0x00"

text \<open>
  \<open>s.replace(old, new)\<close> for a two-character \<open>old\<close>, \<open>a\<close> then \<open>b\<close>, and a one-character
  \<open>new\<close>: occurrences are replaced from the left and do not overlap.
\<close>

fun replace2 :: "char \<Rightarrow> char \<Rightarrow> char \<Rightarrow> string \<Rightarrow> string" where
  "replace2 a b r (x # y # s) =
     (if x = a \<and> y = b then r # replace2 a b r s else x # replace2 a b r (y # s))"
| "replace2 a b r s = s"

text \<open>
  Iterating over a file opened in text mode: \<open>\r\n\<close> and \<open>\r\<close> are read as \<open>\n\<close>, and every
  line keeps its \<open>\n\<close>.
\<close>

fun universal_newlines :: "string \<Rightarrow> string" where
  "universal_newlines (c # d # s) =
     (if c = carriage_return
      then (if d = newline then newline # universal_newlines s
            else newline # universal_newlines (d # s))
      else c # universal_newlines (d # s))"
| "universal_newlines [c] = [if c = carriage_return then newline else c]"
| "universal_newlines [] = []"

fun lines_from :: "string \<Rightarrow> string \<Rightarrow> string list" where
  "lines_from cur [] = (if cur = [] then [] else [cur])"
| "lines_from cur (c # s) =
     (if c = newline then (cur @ [c]) # lines_from [] s else lines_from (cur @ [c]) s)"

definition text_lines :: "string \<Rightarrow> string list" where
  "text_lines text = lines_from [] (universal_newlines text)"

subsection \<open>load_dotenv\<close>

text \<open>
  The nested function \<open>strip_inline_comment_unquoted\<close>: the \<open>for i, ch in enumerate(text)\<close>
  loop, with \<open>i\<close> and the characters from position \<open>i\<close> on.
\<close>

fun strip_inline_comment_loop ::
  "string \<Rightarrow> nat \<Rightarrow> string \<Rightarrow> bool \<Rightarrow> bool \<Rightarrow> bool \<Rightarrow> string" where
  "strip_inline_comment_loop text i [] in_single in_double esc = rstrip text"
| "strip_inline_comment_loop text i (ch # rest) in_single in_double esc =
     (if esc then strip_inline_comment_loop text (i + 1) rest in_single in_double False
      else if ch = backslash then strip_inline_comment_loop text (i + 1) rest in_single in_double True
      else if ch = squote \<and> \<not> in_double then
        strip_inline_comment_loop text (i + 1) rest (\<not> in_single) in_double esc
      else if ch = dquote \<and> \<not> in_single then
        strip_inline_comment_loop text (i + 1) rest in_single (\<not> in_double) esc
      else if ch = CHR ''#'' \<and> \<not> in_single \<and> \<not> in_double then rstrip (take i text)
      else strip_inline_comment_loop text (i + 1) rest in_single in_double esc)"

definition strip_inline_comment_unquoted :: "string \<Rightarrow> string" where
  "strip_inline_comment_unquoted text = strip_inline_comment_loop text 0 text False False False"

text \<open>
  The test \<open>(val.startswith("'") and val.endswith("'")) or (val.startswith('"') and
  val.endswith('"'))\<close>, which the loop body makes twice.
\<close>

definition quoted :: "string \<Rightarrow> bool" where
  "quoted val =
     ((startswith val [squote] \<and> endswith val [squote]) \<or>
      (startswith val [dquote] \<and> endswith val [dquote]))"

text \<open>
  The four \<open>replace\<close> calls that follow the removal of the quotes, in the order of the
  source.
\<close>

definition decode_escapes :: "string \<Rightarrow> string" where
  "decode_escapes val =
     replace2 backslash squote squote
       (replace2 backslash dquote dquote
         (replace2 backslash (CHR ''t'') tab
           (replace2 backslash (CHR ''n'') newline val)))"

text \<open>
  The value a line stores: \<open>val\<close> is the stripped text after the first \<open>=\<close>. The slice
  \<open>val[1:-1]\<close> of a string of length at least one is \<open>drop 1 (take (length val - 1) val)\<close>.
\<close>

definition parse_value :: "string \<Rightarrow> string \<Rightarrow> string" where
  "parse_value raw_line val0 =
     (let val = (if \<not> quoted val0 then strip (strip_inline_comment_unquoted val0) else val0)
      in if quoted val then
           (let val' = drop 1 (take (length val - 1) val)
            in if startswith (strip raw_line) [dquote] \<or> (val' \<noteq> [] \<and> hd val' \<noteq> squote)
               then decode_escapes val'
               else val')
         else val)"

definition valid_key :: "string \<Rightarrow> bool" where
  "valid_key key = (key \<noteq> [] \<and> list_all (\<lambda>c. c = CHR ''_'' \<or> isalnum c) key)"

text \<open>
  The body of the \<open>for raw_line in f\<close> loop: the world and \<open>loaded_keys\<close> after the
  line, or the exception the body raises. Two statements can raise: unpacking
  \<open>line.split("=", 1)\<close> into two names, and \<open>os.environ[key] = val\<close>, which raises
  ValueError when the value holds a NUL character.
\<close>

definition load_line :: "bool \<Rightarrow> string \<Rightarrow> world \<Rightarrow> string list \<Rightarrow> exn + (world \<times> string list)" where
  "load_line debug raw_line w loaded_keys =
     (let line = strip raw_line in
      if line = [] \<or> startswith line ''#'' then Inr (w, loaded_keys)
      else
        let line = (if startswith (lower line) ''export '' then lstrip (drop 7 line) else line) in
        if CHR ''='' \<notin> set line then
          Inr (if debug then
                 print_stderr
                   (''[dcj][debug] Skipping .env line without '' @ [squote] @ ''='' @ [squote] @ '': ''
                      @ rstrip raw_line) w
               else w,
               loaded_keys)
        else
          (case split1 (CHR ''='') line of
             [key0, val0] \<Rightarrow>
               (let key = strip key0;
                    val = parse_value raw_line (strip val0)
                in if valid_key key then
                     (if key \<notin> dom (environ w) then
                        (if nul \<in> set val then Inl (ValueError ''embedded null byte'')
                         else Inr (w\<lparr>environ := (environ w)(key \<mapsto> val)\<rparr>, loaded_keys @ [key]))
                      else Inr (w, loaded_keys))
                   else
                     Inr (if debug then
                            print_stderr (''[dcj][debug] Skipping invalid env key: '' @ key) w
                          else w,
                          loaded_keys))
           | _ \<Rightarrow> Inl (ValueError ''not enough values to unpack (expected 2, got 1)'')))"

text \<open>The text of an exception, as \<open>str(e)\<close> gives it.\<close>

fun exn_text :: "exn \<Rightarrow> string" where
  "exn_text (SystemExit s) = s"
| "exn_text (RuntimeError s) = s"
| "exn_text (ValueError s) = s"
| "exn_text (OSError s) = s"
| "exn_text (TemplateError s) = s"
| "exn_text IndexError = ''list index out of range''"

text \<open>
  The loop inside the \<open>try\<close>: when the body raises, \<open>except Exception as e\<close> prints the
  warning and the function returns the keys loaded so far.
\<close>

fun load_lines :: "string \<Rightarrow> bool \<Rightarrow> string list \<Rightarrow> world \<Rightarrow> string list \<Rightarrow> world \<times> string list" where
  "load_lines path debug [] w loaded_keys = (w, loaded_keys)"
| "load_lines path debug (raw_line # rest) w loaded_keys =
     (case load_line debug raw_line w loaded_keys of
        Inl e \<Rightarrow>
          (print_stderr
             (''Warning: Failed to load env file '' @ [squote] @ path @ [squote] @ '': '' @ exn_text e) w,
           loaded_keys)
      | Inr (w', loaded_keys') \<Rightarrow> load_lines path debug rest w' loaded_keys')"

text \<open>\<open>load_dotenv(path, debug)\<close>: the new world and the list of keys added.\<close>

definition load_dotenv :: "string \<Rightarrow> bool \<Rightarrow> world \<Rightarrow> world \<times> string list" where
  "load_dotenv path debug w =
     (case files w path of
        None \<Rightarrow> (w, [])
      | Some text \<Rightarrow> load_lines path debug (text_lines text) w [])"

section \<open>What the program calls outside itself\<close>

text \<open>
  The program's collaborators are parameters of the model: \<open>shutil.which\<close>; the Jinja2
  library, which from the files, the template path and the variable bindings renders a
  text, raises a TemplateError, or cannot be imported; the operating system, which may
  refuse to create a directory or to write a file; the exit code of the child process
  that \<open>subprocess.run\<close> waits for; and the base name of \<open>sys.argv[0]\<close>.

  \<open>os.makedirs\<close> either returns, or raises after it has created some directories.
  Opening the output for writing and writing the text either succeeds, or \<open>open\<close> raises
  and nothing is written, or \<open>write\<close> raises and leaves the file with some other content.
\<close>

datatype jinja_result = Rendered string | TemplateFailed string | Jinja2Missing

datatype makedirs_outcome = Made | MakeFailed string "string list"

datatype write_outcome = Written | OpenFailed string | WriteFailed string string

record platform =
  which :: "string \<Rightarrow> string option"
  jinja :: "(string \<rightharpoonup> string) \<Rightarrow> string \<Rightarrow> (string \<rightharpoonup> string) \<Rightarrow> jinja_result"
  os_makedirs :: "world \<Rightarrow> string \<Rightarrow> makedirs_outcome"
  open_write :: "world \<Rightarrow> string \<Rightarrow> string \<Rightarrow> write_outcome"
  subprocess_run :: "world \<Rightarrow> string list \<Rightarrow> int"
  prog :: string

section \<open>Configuration\<close>

definition DEFAULT_TEMPLATE_NAMES :: "string list" where
  "DEFAULT_TEMPLATE_NAMES =
     [''docker-compose.jinja.yml'', ''docker-compose.jinja'',
      ''docker-compose.j2.yml'', ''docker-compose.j2'']"

definition DEFAULT_OUTPUT_YML :: string where
  "DEFAULT_OUTPUT_YML = ''docker-compose.yml''"

definition DEFAULT_ENV_FILE :: string where
  "DEFAULT_ENV_FILE = ''.env''"

section \<open>Utilities\<close>

definition RUNNER_NOT_FOUND :: string where
  "RUNNER_NOT_FOUND =
     ''Neither '' @ [squote] @ ''docker'' @ [squote] @ '' (with '' @ [squote] @ ''compose''
       @ [squote] @ '' subcommand) nor '' @ [squote] @ ''docker-compose'' @ [squote]
       @ '' was found in PATH.''"

definition which_compose :: "platform \<Rightarrow> exn + (string list \<times> string)" where
  "which_compose ext =
     (let docker_bin = which ext ''docker'';
          legacy_bin = which ext ''docker-compose''
      in case docker_bin of
           Some d \<Rightarrow> Inr ([d, ''compose''], ''docker compose'')
         | None \<Rightarrow>
             (case legacy_bin of
                Some l \<Rightarrow> Inr ([l], ''docker-compose'')
              | None \<Rightarrow> Inl (RuntimeError RUNNER_NOT_FOUND)))"

text \<open>
  \<open>parse_equals_or_next\<close>: the \<open>for i, tok in enumerate(argv)\<close> loop, with \<open>i\<close> and the
  tokens from position \<open>i\<close> on.
\<close>

fun parse_equals_or_next_loop :: "nat \<Rightarrow> string list \<Rightarrow> string \<Rightarrow> exn + (string option \<times> nat list)" where
  "parse_equals_or_next_loop i [] flag = Inr (None, [])"
| "parse_equals_or_next_loop i (tok # rest) flag =
     (if tok = flag then
        (case rest of
           v # _ \<Rightarrow> Inr (Some v, [i, i + 1])
         | [] \<Rightarrow> Inl (SystemExit (''Expected a value after '' @ flag)))
      else if startswith tok (flag @ ''='') then
        (case index (split1 (CHR ''='') tok) 1 of
           Some v \<Rightarrow> Inr (Some v, [i])
         | None \<Rightarrow> Inl IndexError)
      else parse_equals_or_next_loop (i + 1) rest flag)"

definition parse_equals_or_next :: "string list \<Rightarrow> string \<Rightarrow> exn + (string option \<times> nat list)" where
  "parse_equals_or_next argv flag = parse_equals_or_next_loop 0 argv flag"

text \<open>Truth of an optional string in a condition, and \<open>x or default\<close>.\<close>

definition truthy :: "string option \<Rightarrow> bool" where
  "truthy x = (case x of None \<Rightarrow> False | Some s \<Rightarrow> s \<noteq> [])"

definition or_default :: "string option \<Rightarrow> string \<Rightarrow> string" where
  "or_default x d = (case x of None \<Rightarrow> d | Some s \<Rightarrow> if s = [] then d else s)"

text \<open>\<open>os.path.dirname\<close> of \<open>posixpath\<close>.\<close>

definition dirname :: "string \<Rightarrow> string" where
  "dirname p =
     (let head = rev (dropWhile (\<lambda>c. c \<noteq> CHR ''/'') (rev p))
      in if head \<noteq> [] \<and> \<not> list_all (\<lambda>c. c = CHR ''/'') head
         then rev (dropWhile (\<lambda>c. c = CHR ''/'') (rev head))
         else head)"

text \<open>
  \<open>" ".join(shlex.quote(p) for p in cmd)\<close>. \<open>shlex.quote\<close> leaves a string alone when it
  has only ASCII letters, ASCII digits and the characters \<open>_@%+=:,./-\<close>.
\<close>

definition shlex_safe :: "char \<Rightarrow> bool" where
  "shlex_safe c =
     (let n = (of_char c :: nat)
      in (48 \<le> n \<and> n \<le> 57) \<or> (65 \<le> n \<and> n \<le> 90) \<or> (97 \<le> n \<and> n \<le> 122) \<or>
         c \<in> set ''_@%+=:,./-'')"

definition shlex_quote :: "string \<Rightarrow> string" where
  "shlex_quote s =
     (if s = [] then [squote, squote]
      else if list_all shlex_safe s then s
      else [squote]
           @ concat (map (\<lambda>c. if c = squote then [squote, dquote, squote, dquote, squote] else [c]) s)
           @ [squote])"

fun join_spaces :: "string list \<Rightarrow> string" where
  "join_spaces [] = []"
| "join_spaces [s] = s"
| "join_spaces (s # t # ss) = s @ '' '' @ join_spaces (t # ss)"

definition escaped :: "string list \<Rightarrow> string" where
  "escaped cmd = join_spaces (map shlex_quote cmd)"

section \<open>Jinja rendering\<close>

text \<open>
  \<open>render_template_string\<close>: \<open>env\<close> is \<open>dict(os.environ)\<close> at the call. In debug mode it
  prints the loader directory and the template name, and the error before re-raising it.
\<close>

definition render_template_string :: "platform \<Rightarrow> string \<Rightarrow> bool \<Rightarrow> world \<Rightarrow> world \<times> (exn + string)" where
  "render_template_string ext template_path debug w =
     (case jinja ext (files w) template_path (environ w) of
        Jinja2Missing \<Rightarrow>
          (w, Inl (SystemExit ''Jinja2 is required. Please install it with: pip install jinja2''))
      | TemplateFailed e \<Rightarrow>
          (let w1 = (if debug then
                       print_stderr ''[dcj][debug] Jinja template name: ''
                         (print_stderr ''[dcj][debug] Jinja loader dir: '' w)
                     else w)
           in (if debug then print_stderr (''[dcj][debug] Jinja TemplateError: '' @ e) w1 else w1,
               Inl (TemplateError e)))
      | Rendered rendered \<Rightarrow>
          (if debug then
             print_stderr ''[dcj][debug] Jinja template name: ''
               (print_stderr ''[dcj][debug] Jinja loader dir: '' w)
           else w,
           Inr rendered))"

text \<open>
  \<open>render_template_to_yaml\<close>: render, then \<open>open(output_path, "w")\<close> and \<open>f.write(rendered)\<close>.
  \<open>open\<close> raises when the path ends in a slash or names a directory; otherwise the
  operating system decides.
\<close>

definition render_template_to_yaml ::
  "platform \<Rightarrow> string \<Rightarrow> string \<Rightarrow> bool \<Rightarrow> world \<Rightarrow> world \<times> (exn + unit)" where
  "render_template_to_yaml ext template_path output_path debug w =
     (case render_template_string ext template_path debug w of
        (w1, Inl e) \<Rightarrow> (w1, Inl e)
      | (w1, Inr rendered) \<Rightarrow>
          (if endswith output_path ''/'' \<or> output_path \<in> dirs w1 then
             (w1, Inl (OSError ''Is a directory''))
           else
             (case open_write ext w1 output_path rendered of
                Written \<Rightarrow> (w1\<lparr>files := (files w1)(output_path \<mapsto> rendered)\<rparr>, Inr ())
              | OpenFailed m \<Rightarrow> (w1, Inl (OSError m))
              | WriteFailed m left \<Rightarrow>
                  (w1\<lparr>files := (files w1)(output_path \<mapsto> left)\<rparr>, Inl (OSError m)))))"

section \<open>Main orchestration\<close>

definition find_first_template :: "world \<Rightarrow> string option" where
  "find_first_template w = find (\<lambda>name. name \<in> dom (files w)) DEFAULT_TEMPLATE_NAMES"

text \<open>
  The lines that debug mode prints interpolate Python representations of lists, numbers
  and booleans and the dump of the whole environment; the model records each such line by
  its fixed text.
\<close>

definition run_single_debug :: "platform \<Rightarrow> string list \<Rightarrow> world \<Rightarrow> world \<times> (exn + int)" where
  "run_single_debug ext argv_wo_dbg w =
     (let w = print_stderr (''[dcj][debug] Program: '' @ prog ext) w;
          w = print_stderr ''[dcj][debug] CWD: '' w;
          w = print_stderr ''[dcj][debug] Original args (without --jdebug): '' w
      in case parse_equals_or_next argv_wo_dbg ''--env-file'' of
           Inl e \<Rightarrow> (w, Inl e)
         | Inr (env_file_val, _) \<Rightarrow>
      let env_file = or_default env_file_val DEFAULT_ENV_FILE;
          w = print_stderr (''[dcj][debug] Env file: '' @ env_file) w;
          w = (if truthy env_file_val \<and> env_file \<notin> dom (files w) then
                 print_stderr
                   (''[dcj] Warning: specified --env-file '' @ [squote] @ env_file @ [squote]
                      @ '' does not exist; continuing without loading it.'') w
               else w);
          w = fst (load_dotenv env_file True w);
          w = print_stderr ''[dcj][debug] Loaded environment size: '' w;
          w = print_stderr ''[dcj][debug] .env added '' w;
          w = print_stderr ''[dcj][debug] Dumping environment variables:'' w;
          w = print_stderr ''[dcj][debug] Template candidates: '' w;
          template_path = find_first_template w;
          w = print_stderr (''[dcj][debug] Selected template: ''
                 @ (case template_path of None \<Rightarrow> ''None'' | Some p \<Rightarrow> p)) w
      in case parse_equals_or_next argv_wo_dbg ''--yml-file'' of
           Inl e \<Rightarrow> (w, Inl e)
         | Inr (yml_val, _) \<Rightarrow>
      let output_yml = or_default yml_val DEFAULT_OUTPUT_YML;
          w = print_stderr (''[dcj][debug] Planned output YAML: '' @ output_yml) w;
          w = (case which_compose ext of
                 Inr (compose_argv, compose_label) \<Rightarrow>
                   print_stderr (''[dcj][debug] Compose runner: '' @ compose_label) w
               | Inl e \<Rightarrow>
                   print_stderr (''[dcj][debug] Compose runner detection failed: '' @ exn_text e) w)
      in case process argv_wo_dbg of
           Inl e \<Rightarrow> (w, Inl e)
         | Inr (rewritten, custom_preview) \<Rightarrow>
      let w = print_stderr
                (''[dcj][debug] Would inject '' @ [squote] @ ''-f '' @ output_yml @ [squote] @ '': '') w
      in case template_path of
           Some p \<Rightarrow>
             (case render_template_string ext p True w of
                (w, Inl (SystemExit m)) \<Rightarrow> (w, Inl (SystemExit m))
              | (w, Inl e) \<Rightarrow>
                  (print_stderr (''[dcj] Template render failed: '' @ exn_text e) w, Inr 1)
              | (w, Inr rendered) \<Rightarrow>
                  (print_stderr
                     ''[dcj][debug] Debug run complete. Exiting without invoking docker compose.''
                     (print_stderr ''[dcj][debug] Use --dump to print the rendered YAML''
                        (print_stderr ''[dcj][debug] Template render OK. Size: '' w)),
                   Inr 0))
         | None \<Rightarrow>
             (print_stderr
                ''[dcj][debug] Debug run complete. Exiting without invoking docker compose.''
                (print_stderr ''[dcj][debug] No template found. Nothing to render.'' w),
              Inr 0))"

text \<open>\<open>print_help\<close> prints the usage text; the model keeps its first line.\<close>

definition print_help :: "string \<Rightarrow> world \<Rightarrow> world" where
  "print_help program_name w =
     print_stdout (''Usage: '' @ program_name @ '' [dcj-options] [compose-args]'') w"

text \<open>
  Steps 4 and 5 of \<open>main\<close>, which both branches of step 3 reach: resolve the runner,
  build \<open>final_args\<close>, print the command and run it. \<open>needs_default_f\<close> is \<open>None\<close> or the
  output path.
\<close>

definition final_args :: "string option \<Rightarrow> string list \<Rightarrow> string list" where
  "final_args needs_default_f rewritten =
     (if truthy needs_default_f then [''-f'', the needs_default_f] else []) @ rewritten"

definition run_compose :: "platform \<Rightarrow> string option \<Rightarrow> string list \<Rightarrow> world \<Rightarrow> world \<times> (exn + int)" where
  "run_compose ext needs_default_f rewritten w =
     (case which_compose ext of
        Inl e \<Rightarrow> (w, Inl e)
      | Inr (compose_argv, compose_label) \<Rightarrow>
          (let cmd = compose_argv @ final_args needs_default_f rewritten;
               w1 = print_stdout (''[dcj] Using '' @ compose_label @ '': '' @ escaped cmd) w
           in (w1\<lparr>spawned := spawned w1 @ [cmd]\<rparr>, Inr (subprocess_run ext w1 cmd))))"

text \<open>
  Step 2 of \<open>main\<close>: determine the env file, warn when a file named by the user is
  missing, and load it. The local \<open>env_file\<close> of the source is \<open>env_path\<close> here.
\<close>

definition load_env_step :: "CustomArgs \<Rightarrow> world \<Rightarrow> world" where
  "load_env_step custom w =
     (let env_path = or_default (env_file custom) DEFAULT_ENV_FILE;
          w1 = (if truthy (env_file custom) \<and> env_path \<notin> dom (files w) then
                  print_stderr
                    (''[dcj] Warning: specified --env-file '' @ [squote] @ env_path
                       @ [squote] @ '' does not exist; continuing without loading it.'') w
                else w)
      in fst (load_dotenv env_path False w1))"

text \<open>
  \<open>os.makedirs(name, exist_ok=True)\<close>. The directories it makes are \<open>name\<close> and its
  ancestors: every prefix of \<open>name\<close> that ends before a slash, as \<open>os.path.dirname\<close> cuts
  it. It raises, having made nothing, when one of them is a regular file; otherwise the
  operating system decides.
\<close>

definition ancestors :: "string \<Rightarrow> string list" where
  "ancestors name =
     filter (\<lambda>d. d \<noteq> [])
       (map (\<lambda>i. dirname (take (Suc i) name))
          (filter (\<lambda>i. name ! i = CHR ''/'') [0..<length name]))
     @ [name]"

definition makedirs :: "platform \<Rightarrow> string \<Rightarrow> world \<Rightarrow> world \<times> (exn + unit)" where
  "makedirs ext name w =
     (if list_ex (\<lambda>d. d \<in> dom (files w)) (ancestors name) then
        (w, Inl (OSError ''File exists''))
      else
        (case os_makedirs ext w name of
           Made \<Rightarrow> (w\<lparr>dirs := dirs w \<union> set (ancestors name)\<rparr>, Inr ())
         | MakeFailed m made \<Rightarrow> (w\<lparr>dirs := dirs w \<union> set made\<rparr>, Inl (OSError m))))"

text \<open>The first statements of step 3: make sure the parent directory of the output exists.\<close>

definition ensure_parent_dir :: "platform \<Rightarrow> string \<Rightarrow> world \<Rightarrow> world \<times> (exn + unit)" where
  "ensure_parent_dir ext output_yml w =
     (let out_dir = dirname output_yml
      in if out_dir \<noteq> [] \<and> out_dir \<notin> dirs w then makedirs ext out_dir w else (w, Inr ()))"

text \<open>
  \<open>main(argv)\<close>: the world after the call and the value returned, or the exception that
  leaves \<open>main\<close>.
\<close>

definition main :: "platform \<Rightarrow> string list \<Rightarrow> world \<Rightarrow> world \<times> (exn + int)" where
  "main ext argv w =
     (if length argv = 1 \<and> (argv ! 0 = ''-h'' \<or> argv ! 0 = ''--help'') then
        (case which_compose ext of
           Inl e \<Rightarrow> (w, Inl e)
         | Inr (compose_argv, compose_label) \<Rightarrow>
             (let cmd = compose_argv @ [argv ! 0];
                  w1 = print_stdout
                         (''[dcj] Forwarding help to '' @ compose_label @ '': '' @ escaped cmd) w;
                  w2 = w1\<lparr>spawned := spawned w1 @ [cmd]\<rparr>
              in (print_stdout ''[dcj] Tip: For dcj/Jinja help, use --jhelp.'' w2,
                  Inr (subprocess_run ext w1 cmd))))
      else if ''--jhelp'' \<in> set argv then (print_help (prog ext) w, Inr 0)
      else if ''--jdebug'' \<in> set argv then
        run_single_debug ext (filter (\<lambda>t. t \<noteq> ''--jdebug'') argv) w
      else
        (case process argv of
           Inl e \<Rightarrow> (w, Inl e)
         | Inr (rewritten, custom) \<Rightarrow>
             (let w2 = load_env_step custom w
              in case find_first_template w2 of
                   Some template_path \<Rightarrow>
                     (let output_yml = or_default (yml_file custom) DEFAULT_OUTPUT_YML
                      in case ensure_parent_dir ext output_yml w2 of
                           (w3, Inl e) \<Rightarrow> (w3, Inl e)
                         | (w3, Inr _) \<Rightarrow>
                      if dump custom then
                        (case render_template_string ext template_path False w3 of
                           (w4, Inl (SystemExit m)) \<Rightarrow> (w4, Inl (SystemExit m))
                         | (w4, Inl e) \<Rightarrow>
                             (print_stderr (''[dcj] Template render failed: '' @ exn_text e) w4,
                              Inr 1)
                         | (w4, Inr rendered) \<Rightarrow> (print_stdout rendered w4, Inr 0))
                      else
                        (case render_template_to_yaml ext template_path output_yml False w3 of
                           (w4, Inl e) \<Rightarrow> (w4, Inl e)
                         | (w4, Inr _) \<Rightarrow>
                             run_compose ext
                               (if ''-f'' \<notin> set rewritten \<and> ''--file'' \<notin> set rewritten
                                then Some output_yml else None)
                               rewritten w4))
                 | None \<Rightarrow>
                     (if dump custom then
                        (print_stderr ''[dcj] --dump requested but no template was found.'' w2,
                         Inr 2)
                      else run_compose ext None rewritten w2))))"

text \<open>
  \<open>sys.exit(main(sys.argv[1:]))\<close>: the exit status of the program is the value \<open>main\<close>
  returns, of which the operating system keeps the low eight bits. An exception that
  leaves \<open>main\<close> makes the interpreter write to standard error (the message of a
  SystemExit, the traceback of any other exception, recorded here by the text of the
  exception) and exit with status 1.
\<close>

definition run_program :: "platform \<Rightarrow> string list \<Rightarrow> world \<Rightarrow> world \<times> int" where
  "run_program ext argv w =
     (case main ext argv w of
        (w', Inr code) \<Rightarrow> (w', code mod 256)
      | (w', Inl e) \<Rightarrow> (print_stderr (exn_text e) w', 1))"

subsection \<open>Run modes\<close>

text \<open>The four run modes of the specification, decided from the token list alone.\<close>

datatype run_mode = HelpPassthrough | Help | Debug | Normal

definition run_mode_of :: "string list \<Rightarrow> run_mode" where
  "run_mode_of argv =
     (if argv = [''-h''] \<or> argv = [''--help''] then HelpPassthrough
      else if ''--jhelp'' \<in> set argv then Help
      else if ''--jdebug'' \<in> set argv then Debug
      else Normal)"

subsection \<open>Example surroundings\<close>


definition with_docker :: platform where
  "with_docker =
     \<lparr>which = (\<lambda>name. if name = ''docker'' then Some ''/usr/bin/docker'' else None),
      jinja = (\<lambda>fs path env. Rendered ''services: {}''),
      os_makedirs = (\<lambda>w name. Made),
      open_write = (\<lambda>w path content. Written),
      subprocess_run = (\<lambda>w cmd. 0),
      prog = ''dcj''\<rparr>"

definition project_dir :: world where
  "project_dir =
     \<lparr>environ = Map.empty,
      files = [''.env'' \<mapsto> ''FOO=bar'', ''docker-compose.jinja'' \<mapsto> ''services: {}''],
      dirs = {}, stdout = [], stderr = [], spawned = []\<rparr>"

definition empty_dir :: world where
  "empty_dir =
     \<lparr>environ = Map.empty, files = Map.empty, dirs = {}, stdout = [], stderr = [], spawned = []\<rparr>"

section \<open>Properties of the argument rewriter\<close>

subsection \<open>String helpers\<close>

lemma startswith_split: "startswith s p \<Longrightarrow> s = p @ drop (length p) s"
  unfolding startswith_def by (metis append_take_drop_id)

lemma startswith_length: "startswith s p \<Longrightarrow> length p \<le> length s"
  unfolding startswith_def by (metis length_take min.cobounded1)

lemma eq_value_append:
  "CHR ''='' \<notin> set name \<Longrightarrow> eq_value (name @ CHR ''='' # v) = v"
  unfolding eq_value_def by (induction name) auto

text \<open>
  \<open>tok.split("=", 1)[1]\<close> never raises where the program evaluates it: the token starts
  with the flag name and \<open>=\<close>, so the split has two parts.
\<close>

lemma split1_eq_form:
  assumes "startswith tok (name @ ''='')"
  shows "index (split1 (CHR ''='') tok) 1 = Some (eq_value tok)"
proof -
  from assms have "tok = name @ CHR ''='' # drop (Suc (length name)) tok"
    using startswith_split [of tok "name @ ''=''"] by simp
  then have "CHR ''='' \<in> set tok"
    by (metis in_set_conv_decomp)
  then show ?thesis
    by (simp add: split1_def index_def eq_value_def)
qed

subsection \<open>One step of the loop, by the kind of the token under the cursor\<close>

lemma process_loop_yml_end:
  "process_loop [''--yml-file''] out c = Inl (SystemExit ''--yml-file requires a value'')"
  by simp

lemma process_loop_yml_next:
  "process_loop (''--yml-file'' # v # rest) out c =
     process_loop rest (out @ [''-f'', v]) (c\<lparr>yml_file := Some v\<rparr>)"
  by simp

lemma process_loop_yml_eq:
  assumes "startswith tok ''--yml-file=''"
  shows "process_loop (tok # rest) out c =
     process_loop rest (out @ [''-f'', eq_value tok]) (c\<lparr>yml_file := Some (eq_value tok)\<rparr>)"
proof -
  have "tok \<noteq> ''--yml-file''"
    using startswith_length [OF assms] by auto
  moreover have "index (split1 (CHR ''='') tok) 1 = Some (eq_value tok)"
    using split1_eq_form [of tok "''--yml-file''"] assms by simp
  ultimately show ?thesis
    using assms by simp
qed

lemma process_loop_env_end:
  "process_loop [''--env-file''] out c = Inl (SystemExit ''--env-file requires a value'')"
  by (simp add: startswith_def)

lemma process_loop_env_next:
  "process_loop (''--env-file'' # v # rest) out c =
     process_loop rest (out @ [''--env-file'', v]) (c\<lparr>env_file := Some v\<rparr>)"
  by (simp add: startswith_def)

lemma process_loop_env_eq:
  assumes "startswith tok ''--env-file=''"
  shows "process_loop (tok # rest) out c =
     process_loop rest (out @ [''--env-file'', eq_value tok]) (c\<lparr>env_file := Some (eq_value tok)\<rparr>)"
proof -
  have "tok \<noteq> ''--env-file''" "tok \<noteq> ''--yml-file''"
    using startswith_length [OF assms] by auto
  moreover have "\<not> startswith tok ''--yml-file=''"
    using assms by (auto simp: startswith_def)
  moreover have "index (split1 (CHR ''='') tok) 1 = Some (eq_value tok)"
    using split1_eq_form [of tok "''--env-file''"] assms by simp
  ultimately show ?thesis
    using assms by simp
qed

lemma process_loop_dump:
  "process_loop (''--dump'' # rest) out c = process_loop rest out (c\<lparr>dump := True\<rparr>)"
  by (simp add: startswith_def)

lemma process_loop_other:
  "\<not> is_custom tok \<Longrightarrow> process_loop (tok # rest) out c = process_loop rest (out @ [tok]) c"
  by (simp add: is_custom_def is_eq_form_def)

lemmas process_eval =
  process_def CustomArgs_init_def process_loop.simps startswith_def split1_def index_def

declare process_loop.simps(2) [simp del]

lemmas process_loop_cases =
  process_loop_yml_end process_loop_yml_next process_loop_yml_eq
  process_loop_env_end process_loop_env_next process_loop_env_eq
  process_loop_dump process_loop_other

lemma process_loop_marked_yml_end:
  "process_loop_marked [''--yml-file''] out c = Inl (SystemExit ''--yml-file requires a value'')"
  by simp

lemma process_loop_marked_yml_next:
  "process_loop_marked (''--yml-file'' # v # rest) out c =
     process_loop_marked rest (out @ [(''-f'', Injected), (v, Injected)]) (c\<lparr>yml_file := Some v\<rparr>)"
  by simp

lemma process_loop_marked_yml_eq:
  assumes "startswith tok ''--yml-file=''"
  shows "process_loop_marked (tok # rest) out c =
     process_loop_marked rest (out @ [(''-f'', Injected), (eq_value tok, Injected)])
       (c\<lparr>yml_file := Some (eq_value tok)\<rparr>)"
proof -
  have "tok \<noteq> ''--yml-file''"
    using startswith_length [OF assms] by auto
  moreover have "index (split1 (CHR ''='') tok) 1 = Some (eq_value tok)"
    using split1_eq_form [of tok "''--yml-file''"] assms by simp
  ultimately show ?thesis
    using assms by simp
qed

lemma process_loop_marked_env_end:
  "process_loop_marked [''--env-file''] out c = Inl (SystemExit ''--env-file requires a value'')"
  by (simp add: startswith_def)

lemma process_loop_marked_env_next:
  "process_loop_marked (''--env-file'' # v # rest) out c =
     process_loop_marked rest (out @ [(''--env-file'', Injected), (v, Injected)])
       (c\<lparr>env_file := Some v\<rparr>)"
  by (simp add: startswith_def)

lemma process_loop_marked_env_eq:
  assumes "startswith tok ''--env-file=''"
  shows "process_loop_marked (tok # rest) out c =
     process_loop_marked rest (out @ [(''--env-file'', Injected), (eq_value tok, Injected)])
       (c\<lparr>env_file := Some (eq_value tok)\<rparr>)"
proof -
  have "tok \<noteq> ''--env-file''" "tok \<noteq> ''--yml-file''"
    using startswith_length [OF assms] by auto
  moreover have "\<not> startswith tok ''--yml-file=''"
    using assms by (auto simp: startswith_def)
  moreover have "index (split1 (CHR ''='') tok) 1 = Some (eq_value tok)"
    using split1_eq_form [of tok "''--env-file''"] assms by simp
  ultimately show ?thesis
    using assms by simp
qed

lemma process_loop_marked_dump:
  "process_loop_marked (''--dump'' # rest) out c =
     process_loop_marked rest out (c\<lparr>dump := True\<rparr>)"
  by (simp add: startswith_def)

lemma process_loop_marked_other:
  "\<not> is_custom tok \<Longrightarrow>
     process_loop_marked (tok # rest) out c = process_loop_marked rest (out @ [(tok, Copied)]) c"
  by (simp add: is_custom_def is_eq_form_def)

declare process_loop_marked.simps(2) [simp del]

lemmas process_loop_marked_cases =
  process_loop_marked_yml_end process_loop_marked_yml_next process_loop_marked_yml_eq
  process_loop_marked_env_end process_loop_marked_env_next process_loop_marked_env_eq
  process_loop_marked_dump process_loop_marked_other

text \<open>Induction over a token list the way the cursor walks it.\<close>

lemma tokens_induct [case_names Nil YmlEnd YmlNext YmlEq EnvEnd EnvNext EnvEq Dump Other]:
  assumes "P []"
    and "P [''--yml-file'']"
    and "\<And>v rest. P rest \<Longrightarrow> P (''--yml-file'' # v # rest)"
    and "\<And>tok rest. startswith tok ''--yml-file='' \<Longrightarrow> P rest \<Longrightarrow> P (tok # rest)"
    and "P [''--env-file'']"
    and "\<And>v rest. P rest \<Longrightarrow> P (''--env-file'' # v # rest)"
    and "\<And>tok rest. startswith tok ''--env-file='' \<Longrightarrow> P rest \<Longrightarrow> P (tok # rest)"
    and "\<And>rest. P rest \<Longrightarrow> P (''--dump'' # rest)"
    and "\<And>tok rest. \<not> is_custom tok \<Longrightarrow> P rest \<Longrightarrow> P (tok # rest)"
  shows "P xs"
proof (induction xs rule: length_induct)
  case (1 xs)
  note IH = \<open>\<forall>ys. length ys < length xs \<longrightarrow> P ys\<close>
  show ?case
  proof (cases xs)
    case Nil
    then show ?thesis using assms(1) by simp
  next
    case (Cons tok rest)
    note xs = \<open>xs = tok # rest\<close>
    have rest: "P rest" using IH xs by simp
    consider "tok = ''--yml-file''" | "tok = ''--env-file''" | "tok = ''--dump''"
      | "startswith tok ''--yml-file=''" | "startswith tok ''--env-file=''" | "\<not> is_custom tok"
      unfolding is_custom_def is_eq_form_def by blast
    then show ?thesis
    proof cases
      case 1
      show ?thesis
      proof (cases rest)
        case Nil
        then show ?thesis using assms(2) xs 1 by simp
      next
        case (Cons v rest')
        have "P rest'" using IH xs Cons by simp
        then show ?thesis using assms(3) Cons xs 1 by simp
      qed
    next
      case 2
      show ?thesis
      proof (cases rest)
        case Nil
        then show ?thesis using assms(5) xs 2 by simp
      next
        case (Cons v rest')
        have "P rest'" using IH xs Cons by simp
        then show ?thesis using assms(6) Cons xs 2 by simp
      qed
    next
      case 3
      then show ?thesis using assms(8) rest xs by simp
    next
      case 4
      then show ?thesis using assms(4) rest xs by simp
    next
      case 5
      then show ?thesis using assms(7) rest xs by simp
    next
      case 6
      then show ?thesis using assms(9) rest xs by simp
    qed
  qed
qed

subsection \<open>The accumulators, and running the loop on a concatenation\<close>

lemma merge_custom_update:
  "(merge_custom d c)\<lparr>yml_file := Some v\<rparr> = merge_custom d (c\<lparr>yml_file := Some v\<rparr>)"
  "(merge_custom d c)\<lparr>env_file := Some v\<rparr> = merge_custom d (c\<lparr>env_file := Some v\<rparr>)"
  "(merge_custom d c)\<lparr>dump := True\<rparr> = merge_custom d (c\<lparr>dump := True\<rparr>)"
  by (simp_all add: merge_custom_def)

lemma merge_custom_init: "merge_custom d CustomArgs_init = d"
  by (simp add: merge_custom_def CustomArgs_init_def)

lemma process_loop_shift:
  "process_loop xs (p @ out) (merge_custom d c) =
     (case process_loop xs out c of
        Inl e \<Rightarrow> Inl e
      | Inr (out', c') \<Rightarrow> Inr (p @ out', merge_custom d c'))"
  by (induction xs arbitrary: out c rule: tokens_induct)
     (simp_all add: process_loop_cases merge_custom_update)

lemma process_loop_append:
  "process_loop xs out c = Inr (out1, c1) \<Longrightarrow>
     process_loop (xs @ ys) out c = process_loop ys out1 c1"
  by (induction xs arbitrary: out c rule: tokens_induct)
     (simp_all add: process_loop_cases)

lemma process_append:
  assumes "process xs = Inr (out1, c1)"
  shows "process (xs @ ys) =
     (case process ys of
        Inl e \<Rightarrow> Inl e
      | Inr (out2, c2) \<Rightarrow> Inr (out1 @ out2, merge_custom c1 c2))"
proof -
  have "process (xs @ ys) = process_loop ys out1 c1"
    using assms process_loop_append unfolding process_def by blast
  also have "\<dots> = process_loop ys (out1 @ []) (merge_custom c1 CustomArgs_init)"
    by (simp add: merge_custom_init)
  also have "\<dots> = (case process ys of
        Inl e \<Rightarrow> Inl e
      | Inr (out2, c2) \<Rightarrow> Inr (out1 @ out2, merge_custom c1 c2))"
    unfolding process_def by (rule process_loop_shift)
  finally show ?thesis .
qed

subsection \<open>Erasing the provenance tags\<close>

lemma process_loop_marked_erase:
  "process_loop xs (map fst m) c =
     (case process_loop_marked xs m c of
        Inl e \<Rightarrow> Inl e
      | Inr (m', c') \<Rightarrow> Inr (map fst m', c'))"
proof (induction xs arbitrary: m c rule: tokens_induct)
  case (YmlNext v rest)
  from YmlNext [of "m @ [(''-f'', Injected), (v, Injected)]"] show ?case
    by (simp add: process_loop_cases process_loop_marked_cases)
next
  case (YmlEq tok rest)
  from YmlEq(2) [of "m @ [(''-f'', Injected), (eq_value tok, Injected)]"] YmlEq(1) show ?case
    by (simp add: process_loop_cases process_loop_marked_cases)
next
  case (EnvNext v rest)
  from EnvNext [of "m @ [(''--env-file'', Injected), (v, Injected)]"] show ?case
    by (simp add: process_loop_cases process_loop_marked_cases)
next
  case (EnvEq tok rest)
  from EnvEq(2) [of "m @ [(''--env-file'', Injected), (eq_value tok, Injected)]"] EnvEq(1)
  show ?case
    by (simp add: process_loop_cases process_loop_marked_cases)
next
  case (Other tok rest)
  from Other(2) [of "m @ [(tok, Copied)]"] Other(1) show ?case
    by (simp add: process_loop_cases process_loop_marked_cases)
qed (simp_all add: process_loop_cases process_loop_marked_cases)

lemma process_marked_erase:
  "process argv =
     (case process_marked argv of
        Inl e \<Rightarrow> Inl e
      | Inr (m, c) \<Rightarrow> Inr (map fst m, c))"
  using process_loop_marked_erase [of argv "[]" CustomArgs_init]
  by (simp add: process_def process_marked_def)

subsection \<open>Copied tokens\<close>

lemma strip_custom_Cons:
  "strip_custom (tok # rest) =
     (if takes_value tok then strip_custom (drop 1 rest)
      else if is_custom tok then strip_custom rest
      else tok # strip_custom rest)"
  by (cases rest) (auto simp: takes_value_def is_custom_def)

lemma takes_value_simps:
  "takes_value ''--yml-file''" "takes_value ''--env-file''" "\<not> takes_value ''--dump''"
  "startswith tok ''--yml-file='' \<Longrightarrow> \<not> takes_value tok"
  "startswith tok ''--env-file='' \<Longrightarrow> \<not> takes_value tok"
  "\<not> is_custom tok \<Longrightarrow> \<not> takes_value tok"
  by (auto simp: takes_value_def is_custom_def startswith_def)

lemma is_custom_simps:
  "is_custom ''--dump''"
  "startswith tok ''--yml-file='' \<Longrightarrow> is_custom tok"
  "startswith tok ''--env-file='' \<Longrightarrow> is_custom tok"
  by (auto simp: is_custom_def is_eq_form_def)

lemma process_loop_marked_copied:
  "process_loop_marked xs m c = Inr (m', c') \<Longrightarrow>
     copied_tokens m' = copied_tokens m @ strip_custom xs"
  by (induction xs arbitrary: m c rule: tokens_induct)
     (simp_all add: process_loop_marked_cases strip_custom_Cons copied_tokens_def
        takes_value_simps is_custom_simps)

text \<open>
  Claim C1. For every token list that \<open>ArgRewriter.process\<close> accepts, the tokens of the
  output that were copied from the input are, in order, exactly the input with the
  custom-flag tokens and their consumed values removed; and the replacement tokens stand
  where the replaced tokens stood: wherever the input is cut after an accepted prefix,
  the output is the output of the prefix followed by the output of the rest.
\<close>

theorem process_order_preserved:
  assumes "process argv = Inr (out, custom)"
  shows "(\<exists>marked. process_marked argv = Inr (marked, custom) \<and> map fst marked = out \<and>
            copied_tokens marked = strip_custom argv) \<and>
         (argv = xs @ ys \<and> process xs = Inr (out1, c1) \<longrightarrow>
            (\<exists>out2 c2. process ys = Inr (out2, c2) \<and> out = out1 @ out2))"
proof
  obtain marked c where m: "process_marked argv = Inr (marked, c)"
    using assms process_marked_erase [of argv] by (auto split: sum.splits)
  then have "map fst marked = out" "c = custom"
    using assms process_marked_erase [of argv] by simp_all
  moreover have "copied_tokens marked = strip_custom argv"
    using process_loop_marked_copied [of argv "[]" CustomArgs_init marked c] m
    by (simp add: process_marked_def copied_tokens_def)
  ultimately show "\<exists>marked. process_marked argv = Inr (marked, custom) \<and> map fst marked = out \<and>
            copied_tokens marked = strip_custom argv"
    using m by blast
next
  show "argv = xs @ ys \<and> process xs = Inr (out1, c1) \<longrightarrow>
            (\<exists>out2 c2. process ys = Inr (out2, c2) \<and> out = out1 @ out2)"
  proof
    assume a: "argv = xs @ ys \<and> process xs = Inr (out1, c1)"
    then have "process argv = (case process ys of
        Inl e \<Rightarrow> Inl e
      | Inr (out2, c2) \<Rightarrow> Inr (out1 @ out2, merge_custom c1 c2))"
      using process_append [of xs out1 c1 ys] by simp
    with assms show "\<exists>out2 c2. process ys = Inr (out2, c2) \<and> out = out1 @ out2"
      by (auto split: sum.splits)
  qed
qed

theorem process_order_preserved_witness:
  "process [''up'', ''--yml-file'', ''--dump'', ''-d'', ''--env-file=e'', ''--dump'', ''x'']
     = Inr ([''up'', ''-f'', ''--dump'', ''-d'', ''--env-file'', ''e'', ''x''],
            \<lparr>yml_file = Some ''--dump'', env_file = Some ''e'', dump = True\<rparr>) \<and>
   (\<exists>marked.
      process_marked [''up'', ''--yml-file'', ''--dump'', ''-d'', ''--env-file=e'', ''--dump'', ''x'']
        = Inr (marked, \<lparr>yml_file = Some ''--dump'', env_file = Some ''e'', dump = True\<rparr>) \<and>
      map fst marked = [''up'', ''-f'', ''--dump'', ''-d'', ''--env-file'', ''e'', ''x''] \<and>
      copied_tokens marked = [''up'', ''-d'', ''x'']) \<and>
   (\<exists>out2 c2.
      process [''-d'', ''--env-file=e'', ''--dump'', ''x''] = Inr (out2, c2) \<and>
      [''up'', ''-f'', ''--dump'', ''-d'', ''--env-file'', ''e'', ''x'']
        = [''up'', ''-f'', ''--dump''] @ out2)"
proof -
  let ?argv = "[''up'', ''--yml-file'', ''--dump'', ''-d'', ''--env-file=e'', ''--dump'', ''x'']"
  let ?out = "[''up'', ''-f'', ''--dump'', ''-d'', ''--env-file'', ''e'', ''x'']"
  let ?c = "\<lparr>yml_file = Some ''--dump'', env_file = Some ''e'', dump = True\<rparr>"
  let ?c1 = "\<lparr>yml_file = Some ''--dump'', env_file = None, dump = False\<rparr>"
  have p: "process ?argv = Inr (?out, ?c)"
    by (simp add: process_eval)
  have q: "process [''up'', ''--yml-file'', ''--dump''] = Inr ([''up'', ''-f'', ''--dump''], ?c1)"
    by (simp add: process_eval)
  have s: "strip_custom ?argv = [''up'', ''-d'', ''x'']"
    by (simp add: is_custom_def is_eq_form_def takes_value_def startswith_def)
  have sp: "?argv = [''up'', ''--yml-file'', ''--dump''] @ [''-d'', ''--env-file=e'', ''--dump'', ''x'']"
    by simp
  note t = process_order_preserved [OF p, where xs = "[''up'', ''--yml-file'', ''--dump'']"
      and ys = "[''-d'', ''--env-file=e'', ''--dump'', ''x'']"
      and ?out1.0 = "[''up'', ''-f'', ''--dump'']" and ?c1.0 = ?c1]
  have a: "\<exists>marked. process_marked ?argv = Inr (marked, ?c) \<and> map fst marked = ?out \<and>
            copied_tokens marked = [''up'', ''-d'', ''x'']"
    using conjunct1 [OF t] unfolding s .
  have b: "\<exists>out2 c2. process [''-d'', ''--env-file=e'', ''--dump'', ''x''] = Inr (out2, c2) \<and>
         ?out = [''up'', ''-f'', ''--dump''] @ out2"
    using conjunct2 [OF t] sp q by blast
  show ?thesis
    using p a b by blast
qed

subsection \<open>Length of the output\<close>

lemma process_loop_length:
  "process_loop xs out c = Inr (out', c') \<Longrightarrow>
     length out' \<le> length out + length xs + length (filter is_eq_form xs)"
proof (induction xs arbitrary: out c rule: tokens_induct)
  case (YmlNext v rest)
  from YmlNext(2)
  have "process_loop rest (out @ [''-f'', v]) (c\<lparr>yml_file := Some v\<rparr>) = Inr (out', c')"
    by (simp add: process_loop_cases)
  from YmlNext(1) [OF this] show ?case by simp
next
  case (YmlEq tok rest)
  from YmlEq(1,3)
  have "process_loop rest (out @ [''-f'', eq_value tok]) (c\<lparr>yml_file := Some (eq_value tok)\<rparr>)
          = Inr (out', c')"
    by (simp add: process_loop_cases)
  from YmlEq(2) [OF this] show ?case using YmlEq(1) by (simp add: is_eq_form_def)
next
  case (EnvNext v rest)
  from EnvNext(2)
  have "process_loop rest (out @ [''--env-file'', v]) (c\<lparr>env_file := Some v\<rparr>) = Inr (out', c')"
    by (simp add: process_loop_cases)
  from EnvNext(1) [OF this] show ?case by simp
next
  case (EnvEq tok rest)
  from EnvEq(1,3)
  have "process_loop rest (out @ [''--env-file'', eq_value tok])
          (c\<lparr>env_file := Some (eq_value tok)\<rparr>) = Inr (out', c')"
    by (simp add: process_loop_cases)
  from EnvEq(2) [OF this] show ?case using EnvEq(1) by (simp add: is_eq_form_def)
next
  case (Dump rest)
  from Dump(2) have "process_loop rest out (c\<lparr>dump := True\<rparr>) = Inr (out', c')"
    by (simp add: process_loop_cases)
  from Dump(1) [OF this] show ?case by simp
next
  case (Other tok rest)
  from Other(1,3) have "process_loop rest (out @ [tok]) c = Inr (out', c')"
    by (simp add: process_loop_cases)
  from Other(2) [OF this] show ?case by simp
qed (simp_all add: process_loop_cases)

text \<open>
  Claim C4, as stated: the rewritten list is never longer than the input. It fails: a
  token of the form \<open>--yml-file=X\<close> is one token and is replaced by the two tokens
  \<open>-f X\<close>.
\<close>

theorem process_length_counterexample:
  "process [''--yml-file=x'']
     = Inr ([''-f'', ''x''], \<lparr>yml_file = Some ''x'', env_file = None, dump = False\<rparr>) \<and>
   \<not> length [''-f'', ''x''] \<le> length [''--yml-file=x'']"
  by (simp add: process_eval)

text \<open>
  Claim C4, amended. For every token list that \<open>ArgRewriter.process\<close> accepts, the
  rewritten list has at most as many tokens as the input has tokens plus the number of input
  tokens of the form \<open>--yml-file=X\<close> or \<open>--env-file=X\<close>; so it is no longer than the input
  when no token has that form.
\<close>

theorem process_length_bound:
  assumes "process argv = Inr (out, custom)"
  shows "length out \<le> length argv + length (filter is_eq_form argv)"
  using process_loop_length [of argv "[]" CustomArgs_init out custom] assms
  by (simp add: process_def)

theorem process_length_bound_witness:
  "process [''up'', ''--yml-file=a.yml'', ''--dump'', ''--env-file'', ''e'']
     = Inr ([''up'', ''-f'', ''a.yml'', ''--env-file'', ''e''],
            \<lparr>yml_file = Some ''a.yml'', env_file = Some ''e'', dump = True\<rparr>) \<and>
   length [''up'', ''-f'', ''a.yml'', ''--env-file'', ''e'']
     \<le> length [''up'', ''--yml-file=a.yml'', ''--dump'', ''--env-file'', ''e'']
       + length (filter is_eq_form [''up'', ''--yml-file=a.yml'', ''--dump'', ''--env-file'', ''e''])"
proof -
  have p: "process [''up'', ''--yml-file=a.yml'', ''--dump'', ''--env-file'', ''e'']
     = Inr ([''up'', ''-f'', ''a.yml'', ''--env-file'', ''e''],
            \<lparr>yml_file = Some ''a.yml'', env_file = Some ''e'', dump = True\<rparr>)"
    by (simp add: process_eval)
  show ?thesis
    using p process_length_bound [OF p] by simp
qed

subsection \<open>Values are taken verbatim\<close>

text \<open>
  Claim C9. The token after a two-token \<open>--yml-file\<close> or \<open>--env-file\<close> is taken as the
  value whatever it looks like: between any accepted lists \<open>pre\<close> and \<open>rest\<close>, the pair
  \<open>--env-file v\<close> yields the pair \<open>--env-file v\<close> and the override \<open>v\<close>, the pair
  \<open>--yml-file v\<close> yields \<open>-f v\<close> and the override \<open>v\<close>, and no other field of the state
  depends on \<open>v\<close>. On \<open>--env-file --dump\<close> the override is \<open>--dump\<close>, the dump flag stays
  false and the output is \<open>--env-file --dump\<close>.
\<close>

theorem process_value_verbatim:
  assumes "process pre = Inr (out1, c1)" and "process rest = Inr (out2, c2)"
  shows "process (pre @ [''--env-file'', v] @ rest)
           = Inr (out1 @ [''--env-file'', v] @ out2, merge_custom (c1\<lparr>env_file := Some v\<rparr>) c2) \<and>
         process (pre @ [''--yml-file'', v] @ rest)
           = Inr (out1 @ [''-f'', v] @ out2, merge_custom (c1\<lparr>yml_file := Some v\<rparr>) c2)"
proof -
  have e: "process (pre @ [''--env-file'', v])
             = Inr (out1 @ [''--env-file'', v], c1\<lparr>env_file := Some v\<rparr>)"
    using assms(1) process_loop_append [of pre "[]" CustomArgs_init out1 c1 "[''--env-file'', v]"]
    by (simp add: process_def process_loop_cases)
  have y: "process (pre @ [''--yml-file'', v]) = Inr (out1 @ [''-f'', v], c1\<lparr>yml_file := Some v\<rparr>)"
    using assms(1) process_loop_append [of pre "[]" CustomArgs_init out1 c1 "[''--yml-file'', v]"]
    by (simp add: process_def process_loop_cases)
  show ?thesis
    using process_append [OF e, of rest] process_append [OF y, of rest] assms(2) by simp
qed

theorem process_value_verbatim_witness:
  "process [] = Inr ([], CustomArgs_init) \<and>
   process [''--env-file'', ''--dump'']
     = Inr ([''--env-file'', ''--dump''],
            \<lparr>yml_file = None, env_file = Some ''--dump'', dump = False\<rparr>) \<and>
   process [''--yml-file'', ''--dump'']
     = Inr ([''-f'', ''--dump''], \<lparr>yml_file = Some ''--dump'', env_file = None, dump = False\<rparr>)"
proof -
  have p: "process [] = Inr ([], CustomArgs_init)"
    by (simp add: process_def)
  show ?thesis
    using p process_value_verbatim [OF p p, of "''--dump''"]
    by (simp add: merge_custom_def CustomArgs_init_def)
qed

subsection \<open>Repeated flags\<close>

lemma last_value_Nil: "last_value f [] = None"
  by (simp add: last_value_def)

lemma last_value_Cons:
  "last_value f ((g, v) # occs) =
     (case last_value f occs of
        None \<Rightarrow> (if g = f then Some v else None)
      | Some w \<Rightarrow> Some w)"
  by (simp add: last_value_def split: list.splits)

lemma eq_occurrence_simps:
  "startswith tok ''--yml-file='' \<Longrightarrow> eq_occurrence tok = [(YmlFile, eq_value tok)]"
  "startswith tok ''--env-file='' \<Longrightarrow> eq_occurrence tok = [(EnvFile, eq_value tok)]"
  "eq_occurrence ''--dump'' = []"
  "\<not> is_custom tok \<Longrightarrow> eq_occurrence tok = []"
  by (auto simp: eq_occurrence_def is_custom_def is_eq_form_def startswith_def)

lemma occurrences_Cons:
  "occurrences (tok # rest) =
     (if takes_value tok then
        (case rest of [] \<Rightarrow> [] | v # rest' \<Rightarrow>
           (if tok = ''--yml-file'' then YmlFile else EnvFile, v) # occurrences rest')
      else eq_occurrence tok @ occurrences rest)"
  by (cases rest) (auto simp: takes_value_def eq_occurrence_def startswith_def)

lemma process_loop_marked_injected:
  "process_loop_marked xs m c = Inr (m', c') \<Longrightarrow>
     injected_tokens m' = injected_tokens m @ concat (map replacement (occurrences xs)) \<and>
     yml_file c' = (case last_value YmlFile (occurrences xs) of None \<Rightarrow> yml_file c | Some v \<Rightarrow> Some v) \<and>
     env_file c' = (case last_value EnvFile (occurrences xs) of None \<Rightarrow> env_file c | Some v \<Rightarrow> Some v)"
  by (induction xs arbitrary: m c rule: tokens_induct)
     (simp_all add: process_loop_marked_cases occurrences_Cons injected_tokens_def last_value_Cons
        last_value_Nil eq_occurrence_simps takes_value_simps
        split: option.splits)

lemma process_occurrence:
  assumes "is_occurrence occ toks"
  shows "process_loop toks out c =
     Inr (out @ replacement occ,
          case occ of (YmlFile, v) \<Rightarrow> c\<lparr>yml_file := Some v\<rparr> | (EnvFile, v) \<Rightarrow> c\<lparr>env_file := Some v\<rparr>)"
proof (cases occ)
  case (Pair f v)
  have y: "startswith (''--yml-file='' @ v) ''--yml-file=''"
    and e: "startswith (''--env-file='' @ v) ''--env-file=''"
    by (simp_all add: startswith_def)
  have yv: "eq_value (''--yml-file='' @ v) = v" and ev: "eq_value (''--env-file='' @ v) = v"
    using eq_value_append [of "''--yml-file''" v] eq_value_append [of "''--env-file''" v] by simp_all
  show ?thesis
  proof (cases f)
    case YmlFile
    then show ?thesis
      using assms Pair process_loop_yml_eq [OF y, of "[]" out c] yv
      by (auto simp: is_occurrence_def process_loop_cases)
  next
    case EnvFile
    then show ?thesis
      using assms Pair process_loop_env_eq [OF e, of "[]" out c] ev
      by (auto simp: is_occurrence_def process_loop_cases)
  qed
qed

text \<open>
  Claim C10. When \<open>--yml-file\<close> or \<open>--env-file\<close> occurs several times, the injected
  tokens of the output are one replacement pair for every occurrence, in the order of the
  occurrences; each pair stands in place of its occurrence (between the output of what
  precedes and the output of what follows it); and the custom-flag state holds, for each
  flag, the value of its last occurrence only.
\<close>

theorem process_every_occurrence:
  assumes "process argv = Inr (out, custom)"
  shows "(\<exists>marked. process_marked argv = Inr (marked, custom) \<and> map fst marked = out \<and>
            injected_tokens marked = concat (map replacement (occurrences argv))) \<and>
         yml_file custom = last_value YmlFile (occurrences argv) \<and>
         env_file custom = last_value EnvFile (occurrences argv) \<and>
         (argv = pre @ toks @ rest \<and> process pre = Inr (out1, c1) \<and> is_occurrence occ toks \<longrightarrow>
            (\<exists>out2 c2. process rest = Inr (out2, c2) \<and> out = out1 @ replacement occ @ out2))"
proof -
  obtain marked c where m: "process_marked argv = Inr (marked, c)"
    using assms process_marked_erase [of argv] by (auto split: sum.splits)
  then have mc: "map fst marked = out" "c = custom"
    using assms process_marked_erase [of argv] by simp_all
  note inv = process_loop_marked_injected [of argv "[]" CustomArgs_init marked c]
  have i: "injected_tokens marked = concat (map replacement (occurrences argv))"
    using inv m by (simp add: process_marked_def injected_tokens_def)
  have y: "yml_file custom = last_value YmlFile (occurrences argv)"
    using inv m mc(2) by (simp add: process_marked_def CustomArgs_init_def split: option.splits)
  have e: "env_file custom = last_value EnvFile (occurrences argv)"
    using inv m mc(2) by (simp add: process_marked_def CustomArgs_init_def split: option.splits)
  have p: "\<exists>out2 c2. process rest = Inr (out2, c2) \<and> out = out1 @ replacement occ @ out2"
    if a: "argv = pre @ toks @ rest \<and> process pre = Inr (out1, c1) \<and> is_occurrence occ toks"
  proof -
    obtain c1' where "process (pre @ toks) = Inr (out1 @ replacement occ, c1')"
      using a process_loop_append [of pre "[]" CustomArgs_init out1 c1 toks]
        process_occurrence [of occ toks out1 c1]
      by (simp add: process_def)
    from process_append [OF this, of rest] a assms show ?thesis
      by (auto split: sum.splits)
  qed
  have ex: "\<exists>marked. process_marked argv = Inr (marked, custom) \<and> map fst marked = out \<and>
            injected_tokens marked = concat (map replacement (occurrences argv))"
    using m mc i by blast
  show ?thesis
    using ex y e p by blast
qed

theorem process_every_occurrence_witness:
  "process [''--yml-file'', ''a'', ''up'', ''--env-file=e1'', ''--yml-file=b'', ''--env-file'', ''e2'']
     = Inr ([''-f'', ''a'', ''up'', ''--env-file'', ''e1'', ''-f'', ''b'', ''--env-file'', ''e2''],
            \<lparr>yml_file = Some ''b'', env_file = Some ''e2'', dump = False\<rparr>) \<and>
   (\<exists>marked.
      process_marked [''--yml-file'', ''a'', ''up'', ''--env-file=e1'', ''--yml-file=b'', ''--env-file'', ''e2'']
        = Inr (marked, \<lparr>yml_file = Some ''b'', env_file = Some ''e2'', dump = False\<rparr>) \<and>
      injected_tokens marked = [''-f'', ''a'', ''--env-file'', ''e1'', ''-f'', ''b'', ''--env-file'', ''e2'']) \<and>
   last_value YmlFile
     (occurrences [''--yml-file'', ''a'', ''up'', ''--env-file=e1'', ''--yml-file=b'', ''--env-file'', ''e2''])
     = Some ''b'' \<and>
   (\<exists>out2 c2.
      process [''--env-file'', ''e2''] = Inr (out2, c2) \<and>
      [''-f'', ''a'', ''up'', ''--env-file'', ''e1'', ''-f'', ''b'', ''--env-file'', ''e2'']
        = [''-f'', ''a'', ''up'', ''--env-file'', ''e1''] @ replacement (YmlFile, ''b'') @ out2)"
proof -
  let ?argv = "[''--yml-file'', ''a'', ''up'', ''--env-file=e1'', ''--yml-file=b'', ''--env-file'', ''e2'']"
  let ?out = "[''-f'', ''a'', ''up'', ''--env-file'', ''e1'', ''-f'', ''b'', ''--env-file'', ''e2'']"
  let ?c = "\<lparr>yml_file = Some ''b'', env_file = Some ''e2'', dump = False\<rparr>"
  let ?pre = "[''--yml-file'', ''a'', ''up'', ''--env-file=e1'']"
  let ?c1 = "\<lparr>yml_file = Some ''a'', env_file = Some ''e1'', dump = False\<rparr>"
  have p: "process ?argv = Inr (?out, ?c)"
    by (simp add: process_eval)
  have q: "process ?pre = Inr ([''-f'', ''a'', ''up'', ''--env-file'', ''e1''], ?c1)"
    by (simp add: process_eval)
  have ev: "eq_value ''--env-file=e1'' = ''e1''" "eq_value ''--yml-file=b'' = ''b''"
    by (simp_all add: eq_value_def)
  have o: "occurrences ?argv = [(YmlFile, ''a''), (EnvFile, ''e1''), (YmlFile, ''b''), (EnvFile, ''e2'')]"
    by (simp add: eq_occurrence_def startswith_def ev)
  have occ: "is_occurrence (YmlFile, ''b'') [''--yml-file=b'']"
    by (simp add: is_occurrence_def)
  have sp: "?argv = ?pre @ [''--yml-file=b''] @ [''--env-file'', ''e2'']"
    by simp
  note t = process_every_occurrence [OF p, where pre = ?pre and toks = "[''--yml-file=b'']"
      and rest = "[''--env-file'', ''e2'']" and occ = "(YmlFile, ''b'')"
      and ?out1.0 = "[''-f'', ''a'', ''up'', ''--env-file'', ''e1'']" and ?c1.0 = ?c1]
  have a: "\<exists>marked. process_marked ?argv = Inr (marked, ?c) \<and>
      injected_tokens marked = [''-f'', ''a'', ''--env-file'', ''e1'', ''-f'', ''b'', ''--env-file'', ''e2'']"
  proof -
    from t obtain marked where "process_marked ?argv = Inr (marked, ?c)"
      and "injected_tokens marked = concat (map replacement (occurrences ?argv))"
      by blast
    then show ?thesis unfolding o by simp
  qed
  have l: "last_value YmlFile (occurrences ?argv) = Some ''b''"
    using conjunct1 [OF conjunct2 [OF t]] by simp
  have b: "\<exists>out2 c2. process [''--env-file'', ''e2''] = Inr (out2, c2) \<and>
         ?out = [''-f'', ''a'', ''up'', ''--env-file'', ''e1''] @ replacement (YmlFile, ''b'') @ out2"
    using conjunct2 [OF conjunct2 [OF conjunct2 [OF t]]] sp q occ by blast
  show ?thesis
    using p a l b by blast
qed

subsection \<open>The dump flag\<close>

text \<open>The dump flag is set only by a \<open>--dump\<close> token of the input.\<close>

lemma process_loop_dump_present:
  "process_loop xs out c = Inr (out', c') \<Longrightarrow> dump c' \<Longrightarrow> dump c \<or> ''--dump'' \<in> set xs"
proof (induction xs arbitrary: out c rule: tokens_induct)
  case (YmlNext v rest)
  from YmlNext(2)
  have "process_loop rest (out @ [''-f'', v]) (c\<lparr>yml_file := Some v\<rparr>) = Inr (out', c')"
    by (simp add: process_loop_cases)
  from YmlNext(1) [OF this YmlNext(3)] show ?case by auto
next
  case (YmlEq tok rest)
  from YmlEq(1,3)
  have "process_loop rest (out @ [''-f'', eq_value tok]) (c\<lparr>yml_file := Some (eq_value tok)\<rparr>)
          = Inr (out', c')"
    by (simp add: process_loop_cases)
  from YmlEq(2) [OF this YmlEq(4)] show ?case by auto
next
  case (EnvNext v rest)
  from EnvNext(2)
  have "process_loop rest (out @ [''--env-file'', v]) (c\<lparr>env_file := Some v\<rparr>) = Inr (out', c')"
    by (simp add: process_loop_cases)
  from EnvNext(1) [OF this EnvNext(3)] show ?case by auto
next
  case (EnvEq tok rest)
  from EnvEq(1,3)
  have "process_loop rest (out @ [''--env-file'', eq_value tok])
          (c\<lparr>env_file := Some (eq_value tok)\<rparr>) = Inr (out', c')"
    by (simp add: process_loop_cases)
  from EnvEq(2) [OF this EnvEq(4)] show ?case by auto
next
  case (Other tok rest)
  from Other(1,3) have "process_loop rest (out @ [tok]) c = Inr (out', c')"
    by (simp add: process_loop_cases)
  from Other(2) [OF this Other(4)] show ?case by auto
qed (simp_all add: process_loop_cases)

lemma process_dump_present:
  "process argv = Inr (rewritten, custom) \<Longrightarrow> dump custom \<Longrightarrow> ''--dump'' \<in> set argv"
  using process_loop_dump_present [of argv "[]" CustomArgs_init rewritten custom]
  by (simp add: process_def CustomArgs_init_def)

section \<open>Properties of the .env loader\<close>

lemmas dotenv_eval =
  load_dotenv_def text_lines_def load_line_def strip_def lstrip_def rstrip_def isspace_def
  startswith_def endswith_def lower_def lower_char_def split1_def parse_value_def quoted_def
  strip_inline_comment_unquoted_def decode_escapes_def valid_key_def isalnum_def Let_def
  print_stderr_def

text \<open>
  Claim C2 says that a value wrapped in single quotes is stored verbatim, without escape
  decoding, as the comment in the source says too. The code decodes it: after \<open>val =
  val[1:-1]\<close> the test \<open>val[0] != "'"\<close> looks at the first character inside the quotes,
  not at the quote that was removed. For the line \<open>KEY='a\nb'\<close> (backslash, \<open>n\<close>) the stored
  value is \<open>a\<close>, a line feed, \<open>b\<close>.
\<close>

theorem single_quoted_value_is_decoded:
  "environ
     (fst (load_dotenv ''.env'' False
        \<lparr>environ = Map.empty,
         files = [''.env'' \<mapsto> ''KEY='' @ [squote] @ ''a'' @ [backslash] @ ''nb'' @ [squote]],
         dirs = {}, stdout = [], stderr = [], spawned = []\<rparr>))
     ''KEY''
   = Some (''a'' @ [newline] @ ''b'') \<and>
   parse_value (''KEY='' @ [squote] @ ''a'' @ [backslash] @ ''nb'' @ [squote])
     ([squote] @ ''a'' @ [backslash] @ ''nb'' @ [squote])
   = ''a'' @ [newline] @ ''b''"
  by (simp add: dotenv_eval)

subsection \<open>The ambient environment wins\<close>

lemma load_line_inv:
  assumes "load_line debug raw_line w ks = Inr (w', ks')"
  shows "environ w \<subseteq>\<^sub>m environ w' \<and>
         (\<exists>new. ks' = ks @ new \<and> dom (environ w') = dom (environ w) \<union> set new \<and>
                set new \<inter> dom (environ w) = {})"
  using assms unfolding load_line_def Let_def print_stderr_def
  by (auto split: if_splits list.splits simp: map_le_def)

lemma load_lines_inv:
  "load_lines path debug ls w ks = (w', ks') \<Longrightarrow>
     environ w \<subseteq>\<^sub>m environ w' \<and>
     (\<exists>new. ks' = ks @ new \<and> dom (environ w') = dom (environ w) \<union> set new \<and>
            set new \<inter> dom (environ w) = {})"
proof (induction ls arbitrary: w ks)
  case Nil
  then show ?case by simp
next
  case (Cons raw_line rest)
  show ?case
  proof (cases "load_line debug raw_line w ks")
    case (Inl e)
    with Cons.prems show ?thesis
      by (auto simp: print_stderr_def)
  next
    case (Inr r)
    obtain w1 ks1 where r: "r = (w1, ks1)" by (cases r)
    from Inr r have step: "load_line debug raw_line w ks = Inr (w1, ks1)" by simp
    with Cons.prems have rest: "load_lines path debug rest w1 ks1 = (w', ks')" by simp
    from load_line_inv [OF step] obtain new1 where
      s1: "environ w \<subseteq>\<^sub>m environ w1" "ks1 = ks @ new1"
        "dom (environ w1) = dom (environ w) \<union> set new1" "set new1 \<inter> dom (environ w) = {}"
      by blast
    from Cons.IH [OF rest] obtain new2 where
      s2: "environ w1 \<subseteq>\<^sub>m environ w'" "ks' = ks1 @ new2"
        "dom (environ w') = dom (environ w1) \<union> set new2" "set new2 \<inter> dom (environ w1) = {}"
      by blast
    have "environ w \<subseteq>\<^sub>m environ w'"
      using s1(1) s2(1) by (rule map_le_trans)
    moreover have "ks' = ks @ (new1 @ new2)"
      using s1(2) s2(2) by simp
    moreover have "dom (environ w') = dom (environ w) \<union> set (new1 @ new2)"
      using s1(3) s2(3) by auto
    moreover have "set (new1 @ new2) \<inter> dom (environ w) = {}"
      using s1(3,4) s2(4) by auto
    ultimately show ?thesis by blast
  qed
qed

text \<open>
  Claim C3. Whatever the ambient environment and the content of the file, \<open>load_dotenv\<close>
  leaves every key of the ambient environment with its ambient value, returns no such key
  in its list of added keys, and the keys of the environment afterwards are the ambient
  keys and the returned ones.
\<close>

theorem load_dotenv_keeps_ambient:
  assumes "load_dotenv path debug w = (w', loaded)"
  shows "(\<forall>k \<in> dom (environ w). environ w' k = environ w k) \<and>
         set loaded \<inter> dom (environ w) = {} \<and>
         dom (environ w') = dom (environ w) \<union> set loaded"
proof (cases "files w path")
  case None
  with assms show ?thesis by (auto simp: load_dotenv_def)
next
  case (Some content)
  with assms have "load_lines path debug (text_lines content) w [] = (w', loaded)"
    by (simp add: load_dotenv_def)
  from load_lines_inv [OF this] show ?thesis
    by (auto simp: map_le_def)
qed

theorem load_dotenv_keeps_ambient_witness:
  "load_dotenv ''.env'' False
      \<lparr>environ = [''FOO'' \<mapsto> ''ambient''],
       files = [''.env'' \<mapsto> ''FOO=fromfile'' @ [newline] @ ''BAR=1'' @ [newline]],
       dirs = {}, stdout = [], stderr = [], spawned = []\<rparr>
   = (\<lparr>environ = [''FOO'' \<mapsto> ''ambient'', ''BAR'' \<mapsto> ''1''],
       files = [''.env'' \<mapsto> ''FOO=fromfile'' @ [newline] @ ''BAR=1'' @ [newline]],
       dirs = {}, stdout = [], stderr = [], spawned = []\<rparr>, [''BAR'']) \<and>
   [''FOO'' \<mapsto> ''ambient'', ''BAR'' \<mapsto> ''1''] ''FOO'' = Some ''ambient'' \<and>
   set [''BAR''] \<inter> dom [''FOO'' \<mapsto> ''ambient''] = {} \<and>
   dom [''FOO'' \<mapsto> ''ambient'', ''BAR'' \<mapsto> ''1''] = dom [''FOO'' \<mapsto> ''ambient''] \<union> set [''BAR'']"
proof -
  let ?w = "\<lparr>environ = [''FOO'' \<mapsto> ''ambient''],
       files = [''.env'' \<mapsto> ''FOO=fromfile'' @ [newline] @ ''BAR=1'' @ [newline]],
       dirs = {}, stdout = [], stderr = [], spawned = []\<rparr>"
  let ?w' = "\<lparr>environ = [''FOO'' \<mapsto> ''ambient'', ''BAR'' \<mapsto> ''1''],
       files = [''.env'' \<mapsto> ''FOO=fromfile'' @ [newline] @ ''BAR=1'' @ [newline]],
       dirs = {}, stdout = [], stderr = [], spawned = []\<rparr>"
  have ev: "load_dotenv ''.env'' False ?w = (?w', [''BAR''])"
    by (simp add: dotenv_eval)
  note t = load_dotenv_keeps_ambient [OF ev]
  have k: "''FOO'' \<in> dom (environ ?w)" by simp
  have a: "environ ?w' ''FOO'' = environ ?w ''FOO''"
    using conjunct1 [OF t] k by (rule bspec)
  have b: "set [''BAR''] \<inter> dom (environ ?w) = {}"
    using conjunct1 [OF conjunct2 [OF t]] .
  have c: "dom (environ ?w') = dom (environ ?w) \<union> set [''BAR'']"
    using conjunct2 [OF conjunct2 [OF t]] .
  show ?thesis
    using ev a b c by simp
qed

section \<open>Properties of the orchestration\<close>

lemmas main_eval =
  main_def run_program_def run_compose_def final_args_def which_compose_def load_env_step_def
  ensure_parent_dir_def makedirs_def dirname_def find_first_template_def
  render_template_to_yaml_def
  render_template_string_def or_default_def truthy_def print_stdout_def print_help_def
  run_mode_of_def DEFAULT_TEMPLATE_NAMES_def DEFAULT_OUTPUT_YML_def DEFAULT_ENV_FILE_def

subsection \<open>What the loader leaves alone\<close>

lemma load_line_frame:
  assumes "load_line debug raw_line w ks = Inr (w', ks')"
  shows "files w' = files w \<and> dirs w' = dirs w \<and> stdout w' = stdout w \<and> spawned w' = spawned w"
  using assms unfolding load_line_def Let_def print_stderr_def
  by (auto split: if_splits list.splits)

lemma load_lines_frame:
  "load_lines path debug ls w ks = (w', ks') \<Longrightarrow>
     files w' = files w \<and> dirs w' = dirs w \<and> stdout w' = stdout w \<and> spawned w' = spawned w"
proof (induction ls arbitrary: w ks)
  case Nil
  then show ?case by simp
next
  case (Cons raw_line rest)
  show ?case
  proof (cases "load_line debug raw_line w ks")
    case (Inl e)
    with Cons.prems show ?thesis
      by (auto simp: print_stderr_def)
  next
    case (Inr r)
    obtain w1 ks1 where r: "r = (w1, ks1)" by (cases r)
    from Inr r have step: "load_line debug raw_line w ks = Inr (w1, ks1)" by simp
    with Cons.prems have "load_lines path debug rest w1 ks1 = (w', ks')" by simp
    from Cons.IH [OF this] load_line_frame [OF step] show ?thesis by simp
  qed
qed

lemma load_dotenv_frame:
  "files (fst (load_dotenv path debug w)) = files w \<and>
   dirs (fst (load_dotenv path debug w)) = dirs w \<and>
   stdout (fst (load_dotenv path debug w)) = stdout w \<and>
   spawned (fst (load_dotenv path debug w)) = spawned w"
proof (cases "files w path")
  case None
  then show ?thesis by (simp add: load_dotenv_def)
next
  case (Some content)
  obtain w' ks' where "load_lines path debug (text_lines content) w [] = (w', ks')"
    by (cases "load_lines path debug (text_lines content) w []")
  with load_lines_frame [OF this] Some show ?thesis
    by (simp add: load_dotenv_def)
qed

lemma load_env_step_frame:
  "files (load_env_step custom w) = files w \<and>
   dirs (load_env_step custom w) = dirs w \<and>
   stdout (load_env_step custom w) = stdout w \<and>
   spawned (load_env_step custom w) = spawned w"
  unfolding load_env_step_def Let_def
  using load_dotenv_frame by (simp add: print_stderr_def)

lemma find_first_template_files:
  "files w' = files w \<Longrightarrow> find_first_template w' = find_first_template w"
  by (simp add: find_first_template_def)

lemma ensure_parent_dir_frame:
  assumes "ensure_parent_dir ext p w = (w', r)"
  shows "files w' = files w \<and> environ w' = environ w \<and> stdout w' = stdout w \<and>
         stderr w' = stderr w \<and> spawned w' = spawned w"
  using assms unfolding ensure_parent_dir_def makedirs_def Let_def
  by (auto split: if_splits makedirs_outcome.splits)

lemma render_template_string_frame:
  "render_template_string ext p False w = (w', r) \<Longrightarrow> w' = w"
  by (auto simp: render_template_string_def Let_def split: jinja_result.splits)

lemma render_template_to_yaml_frame:
  "render_template_to_yaml ext p out False w = (w', r) \<Longrightarrow>
     spawned w' = spawned w \<and> environ w' = environ w \<and> stdout w' = stdout w \<and> dirs w' = dirs w"
  by (auto simp: render_template_to_yaml_def render_template_string_def Let_def
      split: jinja_result.splits write_outcome.splits if_splits)


subsection \<open>Normal mode\<close>

lemma sole_help_iff:
  "(length argv = 1 \<and> (argv ! 0 = ''-h'' \<or> argv ! 0 = ''--help'')) =
     (argv = [''-h''] \<or> argv = [''--help''])"
  by (cases argv) auto

text \<open>In Normal mode \<open>main\<close> is its steps 1 to 5.\<close>

lemma main_normal:
  assumes "run_mode_of argv = Normal"
  shows "main ext argv w =
        (case process argv of
           Inl e \<Rightarrow> (w, Inl e)
         | Inr (rewritten, custom) \<Rightarrow>
             (let w2 = load_env_step custom w
              in case find_first_template w2 of
                   Some template_path \<Rightarrow>
                     (let output_yml = or_default (yml_file custom) DEFAULT_OUTPUT_YML
                      in case ensure_parent_dir ext output_yml w2 of
                           (w3, Inl e) \<Rightarrow> (w3, Inl e)
                         | (w3, Inr _) \<Rightarrow>
                      if dump custom then
                        (case render_template_string ext template_path False w3 of
                           (w4, Inl (SystemExit m)) \<Rightarrow> (w4, Inl (SystemExit m))
                         | (w4, Inl e) \<Rightarrow>
                             (print_stderr (''[dcj] Template render failed: '' @ exn_text e) w4,
                              Inr 1)
                         | (w4, Inr rendered) \<Rightarrow> (print_stdout rendered w4, Inr 0))
                      else
                        (case render_template_to_yaml ext template_path output_yml False w3 of
                           (w4, Inl e) \<Rightarrow> (w4, Inl e)
                         | (w4, Inr _) \<Rightarrow>
                             run_compose ext
                               (if ''-f'' \<notin> set rewritten \<and> ''--file'' \<notin> set rewritten
                                then Some output_yml else None)
                               rewritten w4))
                 | None \<Rightarrow>
                     (if dump custom then
                        (print_stderr ''[dcj] --dump requested but no template was found.'' w2,
                         Inr 2)
                      else run_compose ext None rewritten w2)))"
proof -
  from assms have "\<not> (argv = [''-h''] \<or> argv = [''--help''])" "''--jhelp'' \<notin> set argv"
    "''--jdebug'' \<notin> set argv"
    by (auto simp: run_mode_of_def split: if_splits)
  then show ?thesis
    unfolding main_def sole_help_iff by simp
qed

lemma or_default_nonempty: "d \<noteq> [] \<Longrightarrow> or_default x d \<noteq> []"
  by (simp add: or_default_def split: option.splits)

lemma final_args_simps:
  "final_args None rewritten = rewritten"
  "p \<noteq> [] \<Longrightarrow> final_args (Some p) rewritten = [''-f'', p] @ rewritten"
  by (simp_all add: final_args_def truthy_def)

lemma run_compose_returns:
  assumes "run_compose ext needs rewritten w = (w', Inr code)"
  shows "\<exists>compose_argv compose_label. which_compose ext = Inr (compose_argv, compose_label) \<and>
           spawned w' = spawned w @ [compose_argv @ final_args needs rewritten]"
  using assms unfolding run_compose_def Let_def print_stdout_def
  by (auto split: sum.splits)


subsection \<open>The runner is not found\<close>




subsection \<open>Default injection of the file flag\<close>

text \<open>
  Claim C6. In Normal mode without dump, when the run gets as far as returning the exit
  code of the wrapped tool, the command it ran is the runner followed by the final
  argument list; that list is \<open>-f\<close> and the resolved output path followed by the rewritten
  list when a template exists and neither the token \<open>-f\<close> nor the token \<open>--file\<close> is in the
  rewritten list, and the rewritten list unchanged otherwise; without a template nothing
  is injected.
\<close>

theorem default_file_injection:
  assumes "run_mode_of argv = Normal" and "process argv = Inr (rewritten, custom)"
    and "\<not> dump custom" and "main ext argv w = (w', Inr code)"
  shows "\<exists>compose_argv compose_label.
           which_compose ext = Inr (compose_argv, compose_label) \<and>
           spawned w' = spawned w @ [compose_argv @
              (if find_first_template w \<noteq> None \<and> ''-f'' \<notin> set rewritten \<and> ''--file'' \<notin> set rewritten
               then [''-f'', or_default (yml_file custom) DEFAULT_OUTPUT_YML] @ rewritten
               else rewritten)]"
proof (cases "find_first_template w")
  case None
  then have t: "find_first_template (load_env_step custom w) = None"
    using find_first_template_files load_env_step_frame by metis
  have "run_compose ext None rewritten (load_env_step custom w) = (w', Inr code)"
    using assms t by (simp add: main_normal)
  from run_compose_returns [OF this] show ?thesis
    using None load_env_step_frame [of custom w] by (simp add: final_args_simps)
next
  case (Some p)
  then have t: "find_first_template (load_env_step custom w) = Some p"
    using find_first_template_files load_env_step_frame by metis
  let ?out = "or_default (yml_file custom) DEFAULT_OUTPUT_YML"
  let ?needs = "if ''-f'' \<notin> set rewritten \<and> ''--file'' \<notin> set rewritten then Some ?out else None"
  have out: "?out \<noteq> []"
    by (rule or_default_nonempty) (simp add: DEFAULT_OUTPUT_YML_def)
  obtain w3 r3 where e: "ensure_parent_dir ext ?out (load_env_step custom w) = (w3, r3)"
    by (cases "ensure_parent_dir ext ?out (load_env_step custom w)")
  obtain w4 r where r: "render_template_to_yaml ext p ?out False w3 = (w4, r)"
    by (cases "render_template_to_yaml ext p ?out False w3")
  have m: "main ext argv w =
      (case r3 of
         Inl e \<Rightarrow> (w3, Inl e)
       | Inr u3 \<Rightarrow>
           (case r of Inl e \<Rightarrow> (w4, Inl e) | Inr u \<Rightarrow> run_compose ext ?needs rewritten w4))"
    using assms(1,2,3) t e r by (simp add: main_normal Let_def split: sum.splits)
  with assms(4) obtain u3 where "r3 = Inr u3"
    by (cases r3) auto
  with m assms(4) obtain u where "r = Inr u"
    and rc: "run_compose ext ?needs rewritten w4 = (w', Inr code)"
    by (cases r) auto
  have sp: "spawned w4 = spawned w"
    using render_template_to_yaml_frame [OF r] ensure_parent_dir_frame [OF e]
      load_env_step_frame [of custom w]
    by simp
  from run_compose_returns [OF rc] show ?thesis
    using Some sp out by (auto simp: final_args_simps)
qed

theorem default_file_injection_witness:
  "run_mode_of [''up'', ''-d''] = Normal \<and>
   process [''up'', ''-d''] = Inr ([''up'', ''-d''], CustomArgs_init) \<and>
   snd (main with_docker [''up'', ''-d''] project_dir) = Inr 0 \<and>
   (\<exists>compose_argv compose_label.
      which_compose with_docker = Inr (compose_argv, compose_label) \<and>
      spawned (fst (main with_docker [''up'', ''-d''] project_dir))
        = [compose_argv @ [''-f'', ''docker-compose.yml'', ''up'', ''-d'']])"
proof -
  have m: "run_mode_of [''up'', ''-d''] = Normal"
    by (simp add: run_mode_of_def)
  have p: "process [''up'', ''-d''] = Inr ([''up'', ''-d''], CustomArgs_init)"
    by (simp add: process_eval)
  have d: "\<not> dump CustomArgs_init"
    by (simp add: CustomArgs_init_def)
  have s: "snd (main with_docker [''up'', ''-d''] project_dir) = Inr 0"
    by (simp add: main_eval dotenv_eval process_eval with_docker_def project_dir_def)
  then have r: "main with_docker [''up'', ''-d''] project_dir
      = (fst (main with_docker [''up'', ''-d''] project_dir), Inr 0)"
    by (metis prod.collapse)
  have f: "find_first_template project_dir \<noteq> None"
    by (simp add: find_first_template_def project_dir_def DEFAULT_TEMPLATE_NAMES_def)
  have o: "or_default (yml_file CustomArgs_init) DEFAULT_OUTPUT_YML = ''docker-compose.yml''"
    by (simp add: or_default_def CustomArgs_init_def DEFAULT_OUTPUT_YML_def)
  have e: "spawned project_dir = []"
    by (simp add: project_dir_def)
  from default_file_injection [OF m p d r]
  have "\<exists>compose_argv compose_label.
      which_compose with_docker = Inr (compose_argv, compose_label) \<and>
      spawned (fst (main with_docker [''up'', ''-d''] project_dir))
        = [compose_argv @ [''-f'', ''docker-compose.yml'', ''up'', ''-d'']]"
    using f o e by simp
  then show ?thesis
    using m p s by blast
qed

subsection \<open>A value-taking flag without its value\<close>

lemma process_missing_value:
  assumes "process pre = Inr (out1, c1)" and "flag = ''--yml-file'' \<or> flag = ''--env-file''"
  shows "process (pre @ [flag]) = Inl (SystemExit (flag @ '' requires a value''))"
proof -
  have "process (pre @ [flag]) = process_loop [flag] out1 c1"
    using assms(1) process_loop_append unfolding process_def by blast
  then show ?thesis
    using assms(2) by (auto simp: process_loop_cases)
qed

text \<open>
  Claim C7, as stated: every token list whose last token is \<open>--yml-file\<close> or \<open>--env-file\<close>
  ends the run with an error and a non-success exit. It fails in two ways. The mode is
  chosen before the arguments are rewritten: with \<open>--jhelp\<close> present the run prints the help
  and exits with code 0. And a last token that is the value of the flag before it is not
  a flag: \<open>--yml-file --env-file\<close> is accepted and the wrapped tool runs with
  \<open>-f --env-file\<close>.
\<close>

theorem missing_value_counterexample:
  "run_program with_docker [''--jhelp'', ''--env-file''] empty_dir = (print_help ''dcj'' empty_dir, 0) \<and>
   snd (run_program with_docker [''--yml-file'', ''--env-file''] empty_dir) = 0 \<and>
   spawned (fst (run_program with_docker [''--yml-file'', ''--env-file''] empty_dir))
     = [[''/usr/bin/docker'', ''compose'', ''-f'', ''--env-file'']] \<and>
   stderr (fst (run_program with_docker [''--yml-file'', ''--env-file''] empty_dir)) = []"
  by (simp add: main_eval dotenv_eval process_eval with_docker_def empty_dir_def)

text \<open>
  Claim C7, amended. In Normal mode, when the last token is \<open>--yml-file\<close> or \<open>--env-file\<close>
  and the tokens before it form a list the rewriter accepts (so that the last token is
  not the value of the flag before it), \<open>main\<close> raises SystemExit with the message
  \<open><flag> requires a value\<close> in a world that is unchanged: nothing was loaded, rendered,
  written or printed. The program then prints the message to standard error and exits
  with code 1.
\<close>

theorem missing_value_stops_run:
  assumes "run_mode_of (pre @ [flag]) = Normal"
    and "flag = ''--yml-file'' \<or> flag = ''--env-file''"
    and "process pre = Inr (out1, c1)"
  shows "main ext (pre @ [flag]) w = (w, Inl (SystemExit (flag @ '' requires a value''))) \<and>
         run_program ext (pre @ [flag]) w = (print_stderr (flag @ '' requires a value'') w, 1)"
  using process_missing_value [OF assms(3,2)] assms(1)
  by (simp add: main_normal run_program_def)

theorem missing_value_stops_run_witness:
  "run_mode_of ([''up''] @ [''--env-file'']) = Normal \<and>
   process [''up''] = Inr ([''up''], CustomArgs_init) \<and>
   main with_docker ([''up''] @ [''--env-file'']) project_dir
     = (project_dir, Inl (SystemExit (''--env-file'' @ '' requires a value''))) \<and>
   run_program with_docker ([''up''] @ [''--env-file'']) project_dir
     = (print_stderr (''--env-file'' @ '' requires a value'') project_dir, 1)"
proof -
  have m: "run_mode_of ([''up''] @ [''--env-file'']) = Normal"
    by (simp add: run_mode_of_def)
  have f: "''--env-file'' = ''--yml-file'' \<or> ''--env-file'' = ''--env-file''"
    by simp
  have p: "process [''up''] = Inr ([''up''], CustomArgs_init)"
    by (simp add: process_eval)
  show ?thesis
    using m p missing_value_stops_run [OF m f p, of with_docker project_dir] by blast
qed

subsection \<open>Dump mode\<close>

text \<open>
  Claim C8, as stated: whenever the \<open>--dump\<close> flag is present and the run reaches
  Normal-mode processing, and no candidate template exists, the exit code is 2. It fails
  when the rewriter rejects the list after it has recognised \<open>--dump\<close>: on
  \<open>--dump --yml-file\<close> in a directory without a template the run is in Normal mode, the
  dump flag is set, and then \<open>--yml-file\<close> has no value: the run ends with that error and
  exit code 1.
\<close>

theorem dump_exit_code_counterexample:
  "run_mode_of [''--dump'', ''--yml-file''] = Normal \<and>
   ''--dump'' \<in> set [''--dump'', ''--yml-file''] \<and>
   find_first_template empty_dir = None \<and>
   main with_docker [''--dump'', ''--yml-file''] empty_dir
     = (empty_dir, Inl (SystemExit ''--yml-file requires a value'')) \<and>
   snd (run_program with_docker [''--dump'', ''--yml-file''] empty_dir) = 1 \<and>
   snd (run_program with_docker [''--dump'', ''--yml-file''] empty_dir) \<noteq> 2"
  by (simp add: main_eval process_eval empty_dir_def)

text \<open>
  Claim C8, amended. In Normal mode, when the rewriter rejects the token list the run
  ends with that error in an unchanged world. When it accepts the list and has set the
  dump flag (which only a \<open>--dump\<close> token of the input does), the wrapped tool is never
  invoked, whatever the rendering does; and when moreover no candidate template exists,
  nothing is printed to standard output and the exit code is 2.
\<close>

theorem dump_never_runs_tool:
  assumes "run_mode_of argv = Normal"
  shows "(process argv = Inl e \<longrightarrow> main ext argv w = (w, Inl e)) \<and>
         (process argv = Inr (rewritten, custom) \<and> dump custom \<longrightarrow>
            ''--dump'' \<in> set argv \<and>
            spawned (fst (main ext argv w)) = spawned w \<and>
            (find_first_template w = None \<longrightarrow>
               stdout (fst (main ext argv w)) = stdout w \<and>
               snd (main ext argv w) = Inr 2 \<and>
               snd (run_program ext argv w) = 2))"
proof -
  have rejected: "main ext argv w = (w, Inl e)" if "process argv = Inl e"
    using that assms by (simp add: main_normal)
  have accepted: "''--dump'' \<in> set argv \<and>
            spawned (fst (main ext argv w)) = spawned w \<and>
            (find_first_template w = None \<longrightarrow>
               stdout (fst (main ext argv w)) = stdout w \<and>
               snd (main ext argv w) = Inr 2 \<and>
               snd (run_program ext argv w) = 2)"
    if a: "process argv = Inr (rewritten, custom) \<and> dump custom"
  proof (cases "find_first_template w")
    case None
    then have t: "find_first_template (load_env_step custom w) = None"
      using find_first_template_files load_env_step_frame by metis
    have "main ext argv w =
        (print_stderr ''[dcj] --dump requested but no template was found.'' (load_env_step custom w),
         Inr 2)"
      using assms a t by (simp add: main_normal)
    then show ?thesis
      using load_env_step_frame [of custom w] None process_dump_present [of argv rewritten custom] a
      by (simp add: print_stderr_def run_program_def)
  next
    case (Some p)
    then have t: "find_first_template (load_env_step custom w) = Some p"
      using find_first_template_files load_env_step_frame by metis
    let ?out = "or_default (yml_file custom) DEFAULT_OUTPUT_YML"
    obtain w3 r3 where e: "ensure_parent_dir ext ?out (load_env_step custom w) = (w3, r3)"
      by (cases "ensure_parent_dir ext ?out (load_env_step custom w)")
    have s3: "spawned w3 = spawned w"
      using ensure_parent_dir_frame [OF e] load_env_step_frame [of custom w] by simp
    obtain w4 r where r: "render_template_string ext p False w3 = (w4, r)"
      by (cases "render_template_string ext p False w3")
    then have w4: "w4 = w3" by (rule render_template_string_frame)
    have "spawned (fst (main ext argv w)) = spawned w3"
      using assms a t e r w4
      by (simp add: main_normal Let_def print_stderr_def print_stdout_def
          split: sum.splits exn.splits)
    then show ?thesis
      using s3 Some process_dump_present [of argv rewritten custom] a by simp
  qed
  show ?thesis
    using rejected accepted by blast
qed

theorem dump_never_runs_tool_witness:
  "run_mode_of [''--dump'', ''up''] = Normal \<and>
   process [''--dump'', ''up''] = Inr ([''up''], CustomArgs_init\<lparr>dump := True\<rparr>) \<and>
   spawned (fst (main with_docker [''--dump'', ''up''] project_dir)) = spawned project_dir \<and>
   spawned (fst (main with_docker [''--dump'', ''up''] empty_dir)) = spawned empty_dir \<and>
   find_first_template empty_dir = None \<and>
   stdout (fst (main with_docker [''--dump'', ''up''] empty_dir)) = stdout empty_dir \<and>
   snd (main with_docker [''--dump'', ''up''] empty_dir) = Inr 2 \<and>
   snd (run_program with_docker [''--dump'', ''up''] empty_dir) = 2 \<and>
   run_mode_of [''--dump'', ''--yml-file''] = Normal \<and>
   process [''--dump'', ''--yml-file''] = Inl (SystemExit ''--yml-file requires a value'') \<and>
   main with_docker [''--dump'', ''--yml-file''] empty_dir
     = (empty_dir, Inl (SystemExit ''--yml-file requires a value''))"
proof -
  have m: "run_mode_of [''--dump'', ''up''] = Normal"
    by (simp add: run_mode_of_def)
  have p: "process [''--dump'', ''up''] = Inr ([''up''], CustomArgs_init\<lparr>dump := True\<rparr>)"
    by (simp add: process_eval)
  have d: "dump (CustomArgs_init\<lparr>dump := True\<rparr>)"
    by simp
  have f: "find_first_template empty_dir = None"
    by (simp add: find_first_template_def empty_dir_def DEFAULT_TEMPLATE_NAMES_def)
  have m': "run_mode_of [''--dump'', ''--yml-file''] = Normal"
    by (simp add: run_mode_of_def)
  have p': "process [''--dump'', ''--yml-file''] = Inl (SystemExit ''--yml-file requires a value'')"
    by (simp add: process_eval)
  note t1 = dump_never_runs_tool [OF m, where ext = with_docker and w = project_dir
      and rewritten = "[''up'']" and custom = "CustomArgs_init\<lparr>dump := True\<rparr>"]
  note t2 = dump_never_runs_tool [OF m, where ext = with_docker and w = empty_dir
      and rewritten = "[''up'']" and custom = "CustomArgs_init\<lparr>dump := True\<rparr>"]
  note t3 = dump_never_runs_tool [OF m', where ext = with_docker and w = empty_dir
      and e = "SystemExit ''--yml-file requires a value''"]
  have a: "spawned (fst (main with_docker [''--dump'', ''up''] project_dir)) = spawned project_dir"
    using conjunct2 [OF t1] p d by blast
  have b: "spawned (fst (main with_docker [''--dump'', ''up''] empty_dir)) = spawned empty_dir"
    using conjunct2 [OF t2] p d by blast
  have c: "stdout (fst (main with_docker [''--dump'', ''up''] empty_dir)) = stdout empty_dir \<and>
      snd (main with_docker [''--dump'', ''up''] empty_dir) = Inr 2 \<and>
      snd (run_program with_docker [''--dump'', ''up''] empty_dir) = 2"
    using conjunct2 [OF t2] p d f by blast
  have g: "main with_docker [''--dump'', ''--yml-file''] empty_dir
     = (empty_dir, Inl (SystemExit ''--yml-file requires a value''))"
    using conjunct1 [OF t3] p' by (rule mp)
  show ?thesis
    using m p a b f c m' p' g by blast
qed

end
